theory Spec2Isabelle
  imports Complex_Main "HOL-Library.Multiset"
begin

section \<open>Values exchanged with the catalogue\<close>

text \<open>
  The REST endpoint answers with JSON, and every record the pipeline touches is a value
  parsed from such an answer.  An object is kept as the list of its members; reading a
  member looks the name up in that list.  A number is the double the parser made of the
  literal: a finite double is kept as the rational it denotes (the two zeros are one
  value), and a literal beyond the range of doubles parses to an infinity, \<open>JInf True\<close>
  the positive and \<open>JInf False\<close> the negative one.
\<close>

datatype json =
    JNull
  | JBool bool
  | JNum rat
  | JInf bool
  | JStr string
  | JArr "json list"
  | JObj "(string \<times> json) list"

text \<open>
  Errors are values.  \<open>NetworkError\<close> is a rejected \<open>fetch\<close> or \<open>response.json()\<close>,
  \<open>HttpError status offset\<close> the \<open>throw new Error(`HTTP ${response.status} on ${url}`)\<close>
  (the URL is determined by the offset), \<open>FormatError\<close> the
  \<open>throw new Error("Unexpected response format from PGS API.")\<close>, \<open>TypeError\<close> the
  exception the runtime raises on a member access on \<open>null\<close> or on a call of a missing
  method, and \<open>StoreError\<close> a rejected promise of the key-value store.
\<close>

datatype error =
    NetworkError
  | HttpError nat nat
  | FormatError
  | TypeError
  | StoreError

text \<open>
  \<open>member v name\<close> is the expression \<open>v.name\<close> for the member names the sources use
  (\<open>results\<close>, \<open>next\<close> and the fields of the records, such as \<open>variants_number\<close>,
  \<open>trait_reported\<close>, \<open>date_release\<close> and \<open>trait_categories\<close>): it throws on \<open>null\<close>, and is
  \<open>undefined\<close> (\<open>None\<close>) on a primitive, on an array and on an object without the
  member.
\<close>

fun member :: "json \<Rightarrow> string \<Rightarrow> error + json option" where
  "member JNull name = Inl TypeError"
| "member (JObj kvs) name = Inr (map_of kvs name)"
| "member v name = Inr None"

text \<open>\<open>Array.isArray(v)\<close>.\<close>

fun isArray :: "json \<Rightarrow> bool" where
  "isArray (JArr xs) = True"
| "isArray v = False"

section \<open>The paginated fetcher\<close>

text \<open>
  What one \<open>await fetch(url)\<close> followed by \<open>await response.json()\<close> can deliver: a
  rejected promise, a response whose \<open>ok\<close> flag is false (with its status), or a parsed
  body.
\<close>

datatype response =
    Failed
  | NotOk nat
  | OkBody json

text \<open>
  Lines 66-67 of \<open>loadScores.mjs\<close>:
  \<open>const results = Array.isArray(data) ? data : (data.results ?? [])\<close> and the test
  \<open>if (!Array.isArray(results)) throw ...\<close>.
\<close>

definition page_results :: "json \<Rightarrow> error + json list" where
  "page_results data =
     (case data of
        JArr xs \<Rightarrow> Inr xs
      | _ \<Rightarrow>
        (case member data ''results'' of
           Inl e \<Rightarrow> Inl e
         | Inr None \<Rightarrow> Inr []
         | Inr (Some JNull) \<Rightarrow> Inr []
         | Inr (Some (JArr xs)) \<Rightarrow> Inr xs
         | Inr (Some _) \<Rightarrow> Inl FormatError))"

text \<open>
  \<open>data.next == null\<close>, evaluated only after \<open>page_results\<close> has succeeded on a body
  that is not an array, so that the member access cannot throw any more.
\<close>

definition next_is_null :: "json \<Rightarrow> bool" where
  "next_is_null data =
     (case member data ''next'' of
        Inr None \<Rightarrow> True
      | Inr (Some JNull) \<Rightarrow> True
      | _ \<Rightarrow> False)"

text \<open>
  A run of the fetcher: the offsets it requested, in order (one per call of \<open>fetch\<close>; the
  URL of a request is fixed by the page size and the offset), and how it ended.
\<close>

record fetch_run =
  requested :: "nat list"
  outcome :: "error + json list"

text \<open>
  The \<open>while (true)\<close> loop of \<open>fetchAllScores\<close>.  The network is a parameter: \<open>fetch n\<close> is
  what the request made after \<open>n\<close> earlier requests delivers.  The loop may run forever
  (a server that always answers with full pages), so the function is partial: \<open>None\<close> is
  a run that never returns.
\<close>

partial_function (option) fetch_loop ::
  "(nat \<Rightarrow> response) \<Rightarrow> nat \<Rightarrow> nat \<Rightarrow> nat \<Rightarrow> json list \<Rightarrow> nat list \<Rightarrow> fetch_run option"
where
  "fetch_loop fetch pageSize page offset all reqs =
     (case fetch page of
        Failed \<Rightarrow> Some \<lparr>requested = reqs @ [offset], outcome = Inl NetworkError\<rparr>
      | NotOk status \<Rightarrow>
          Some \<lparr>requested = reqs @ [offset], outcome = Inl (HttpError status offset)\<rparr>
      | OkBody data \<Rightarrow>
          (case page_results data of
             Inl e \<Rightarrow> Some \<lparr>requested = reqs @ [offset], outcome = Inl e\<rparr>
           | Inr results \<Rightarrow>
               if length results = 0
               then Some \<lparr>requested = reqs @ [offset], outcome = Inr (all @ results)\<rparr>
               else if \<not> isArray data \<and> next_is_null data \<and> length results < pageSize
               then Some \<lparr>requested = reqs @ [offset], outcome = Inr (all @ results)\<rparr>
               else fetch_loop fetch pageSize (page + 1) (offset + length results)
                      (all @ results) (reqs @ [offset])))"

declare fetch_loop.simps [code]

definition fetchAllScores :: "nat \<Rightarrow> (nat \<Rightarrow> response) \<Rightarrow> fetch_run option" where
  "fetchAllScores pageSize fetch = fetch_loop fetch pageSize 0 0 [] []"

section \<open>Arrays, maps and numbers of the runtime\<close>

text \<open>
  \<open>Array.prototype.sort(compare)\<close>.  The order in which the runtime compares elements
  is its own, but the sort is stable and, for a comparator that is a difference of keys
  (all comparators of the sources are), the result is determined: the stable insertion
  sort below computes it.  An element goes before the first one it does not exceed.
\<close>

fun insert_sorted :: "('a \<Rightarrow> 'a \<Rightarrow> rat) \<Rightarrow> 'a \<Rightarrow> 'a list \<Rightarrow> 'a list" where
  "insert_sorted compare x [] = [x]"
| "insert_sorted compare x (y # ys) =
     (if compare x y \<le> 0 then x # y # ys else y # insert_sorted compare x ys)"

definition js_sort :: "('a \<Rightarrow> 'a \<Rightarrow> rat) \<Rightarrow> 'a list \<Rightarrow> 'a list" where
  "js_sort compare xs = foldr (insert_sorted compare) xs []"

text \<open>
  A \<open>Map\<close> is the list of its entries in insertion order, which is the order
  \<open>entries()\<close> yields.  \<open>set\<close> on a key that is present keeps the entry's place.  Keys
  are compared by the runtime's SameValueZero, a parameter of the two operations.
\<close>

fun map_get :: "('k \<Rightarrow> 'k \<Rightarrow> bool) \<Rightarrow> ('k \<times> 'v) list \<Rightarrow> 'k \<Rightarrow> 'v option" where
  "map_get same [] k = None"
| "map_get same ((k', v') # m) k = (if same k' k then Some v' else map_get same m k)"

fun map_set :: "('k \<Rightarrow> 'k \<Rightarrow> bool) \<Rightarrow> ('k \<times> 'v) list \<Rightarrow> 'k \<Rightarrow> 'v \<Rightarrow> ('k \<times> 'v) list" where
  "map_set same [] k v = [(k, v)]"
| "map_set same ((k', v') # m) k v =
     (if same k' k then (k', v) # m else (k', v') # map_set same m k v)"

text \<open>
  \<open>map.set(key, (map.get(key) ?? 0) + 1)\<close>, the one way the sources update a map.
\<close>

definition increment :: "('k \<Rightarrow> 'k \<Rightarrow> bool) \<Rightarrow> ('k \<times> nat) list \<Rightarrow> 'k \<Rightarrow> ('k \<times> nat) list" where
  "increment same m k =
     map_set same m k ((case map_get same m k of None \<Rightarrow> 0 | Some c \<Rightarrow> c) + 1)"

text \<open>
  SameValueZero on parsed JSON.  Primitive values are equal when they are the same
  value.  An array or an object is equal only to itself, and two values read from
  different places of a parsed body are never the same object; the aggregators look every
  such value up once only, so an array or an object never meets itself in a map.
\<close>

fun primitive :: "json \<Rightarrow> bool" where
  "primitive (JArr xs) = False"
| "primitive (JObj kvs) = False"
| "primitive v = True"

definition sameValueZero :: "json \<Rightarrow> json \<Rightarrow> bool" where
  "sameValueZero a b \<longleftrightarrow> primitive a \<and> a = b"

text \<open>
  A number of the runtime is an IEEE double: a finite one (the rational it denotes),
  \<open>NaN\<close> or an infinity.
\<close>

datatype jsnum = Num rat | NaN | PosInf | NegInf

text \<open>
  What the runtime contributes to the arithmetic is kept as two parameters.  \<open>convert\<close>
  is \<open>Number(v)\<close> on a string (the runtime's numeric-literal grammar) and on an array or
  object (through its primitive value, which may throw).  \<open>nearest\<close> is the rounding of
  an exact result to a double: every operation on finite doubles yields the double
  nearest to the exact result, or an infinity when that is out of range.
\<close>

record numerics =
  convert :: "json \<Rightarrow> error + jsnum"
  nearest :: "rat \<Rightarrow> jsnum"

text \<open>
  The operations \<open>a + b\<close>, \<open>a - b\<close> and \<open>a * b\<close> on doubles.  \<open>NaN\<close> is contagious, the
  sum of the two infinities of opposite sign is \<open>NaN\<close>, and so is the product of an
  infinity and zero.
\<close>

definition fadd :: "numerics \<Rightarrow> jsnum \<Rightarrow> jsnum \<Rightarrow> jsnum" where
  "fadd num a b =
     (case (a, b) of
        (NaN, _) \<Rightarrow> NaN
      | (_, NaN) \<Rightarrow> NaN
      | (Num x, Num y) \<Rightarrow> nearest num (x + y)
      | (PosInf, NegInf) \<Rightarrow> NaN
      | (NegInf, PosInf) \<Rightarrow> NaN
      | (PosInf, _) \<Rightarrow> PosInf
      | (NegInf, _) \<Rightarrow> NegInf
      | (_, PosInf) \<Rightarrow> PosInf
      | (_, NegInf) \<Rightarrow> NegInf)"

definition fneg :: "jsnum \<Rightarrow> jsnum" where
  "fneg a = (case a of Num x \<Rightarrow> Num (- x) | NaN \<Rightarrow> NaN | PosInf \<Rightarrow> NegInf | NegInf \<Rightarrow> PosInf)"

definition fsub :: "numerics \<Rightarrow> jsnum \<Rightarrow> jsnum \<Rightarrow> jsnum" where
  "fsub num a b = fadd num a (fneg b)"

text \<open>The sign of a number that is not \<open>NaN\<close>: -1, 0 or 1.\<close>

definition fsign :: "jsnum \<Rightarrow> int" where
  "fsign a =
     (case a of
        Num x \<Rightarrow> (if x < 0 then - 1 else if x = 0 then 0 else 1)
      | PosInf \<Rightarrow> 1
      | NegInf \<Rightarrow> - 1
      | NaN \<Rightarrow> 0)"

definition fmul :: "numerics \<Rightarrow> jsnum \<Rightarrow> jsnum \<Rightarrow> jsnum" where
  "fmul num a b =
     (case (a, b) of
        (NaN, _) \<Rightarrow> NaN
      | (_, NaN) \<Rightarrow> NaN
      | (Num x, Num y) \<Rightarrow> nearest num (x * y)
      | _ \<Rightarrow>
          (if fsign a * fsign b = 0 then NaN
           else if 0 < fsign a * fsign b then PosInf else NegInf))"

text \<open>
  \<open>a / n\<close> for a count \<open>n\<close> that is not zero, the one division of the aggregators (the
  division is guarded by the length of the array).
\<close>

definition fdiv_count :: "numerics \<Rightarrow> jsnum \<Rightarrow> nat \<Rightarrow> jsnum" where
  "fdiv_count num a n = (case a of Num x \<Rightarrow> nearest num (x / of_nat n) | _ \<Rightarrow> a)"

text \<open>\<open>Math.floor(a)\<close>: the floor of a double is a double.\<close>

definition ffloor :: "jsnum \<Rightarrow> jsnum" where
  "ffloor a = (case a of Num x \<Rightarrow> Num (of_int \<lfloor>x\<rfloor>) | _ \<Rightarrow> a)"

text \<open>
  What \<open>Number(v)\<close> yields.  \<open>undefined\<close> converts to \<open>NaN\<close>, \<open>null\<close> to 0, a boolean to
  0 or 1, a number to itself; the rest is the runtime's \<open>convert\<close>.
\<close>

fun toNumber :: "numerics \<Rightarrow> json option \<Rightarrow> error + jsnum" where
  "toNumber num None = Inr NaN"
| "toNumber num (Some JNull) = Inr (Num 0)"
| "toNumber num (Some (JBool b)) = Inr (Num (if b then 1 else 0))"
| "toNumber num (Some (JNum r)) = Inr (Num r)"
| "toNumber num (Some (JInf positive)) = Inr (if positive then PosInf else NegInf)"
| "toNumber num (Some v) = convert num v"

text \<open>\<open>.filter((v) => Number.isFinite(v))\<close>.\<close>

fun finite_numbers :: "jsnum list \<Rightarrow> rat list" where
  "finite_numbers [] = []"
| "finite_numbers (Num r # ns) = r # finite_numbers ns"
| "finite_numbers (n # ns) = finite_numbers ns"

text \<open>
  A value a statistic can take: \<open>null\<close>, \<open>undefined\<close> or a number, which may be \<open>NaN\<close>
  or an infinity.
\<close>

datatype stat = Null | Undefined | Value jsnum

text \<open>\<open>xs[i]\<close> for an integer \<open>i\<close>: \<open>None\<close> is \<open>undefined\<close>, out of range.\<close>

definition at_index :: "'a list \<Rightarrow> int \<Rightarrow> 'a option" where
  "at_index xs i = (if 0 \<le> i \<and> i < int (length xs) then Some (xs ! nat i) else None)"

text \<open>
  \<open>xs[i]\<close> for a number \<open>i\<close>: only an integer within the array names an element.
\<close>

definition at_number :: "'a list \<Rightarrow> jsnum \<Rightarrow> 'a option" where
  "at_number xs i =
     (case i of
        Num r \<Rightarrow> if r = of_int \<lfloor>r\<rfloor> then at_index xs \<lfloor>r\<rfloor> else None
      | _ \<Rightarrow> None)"

text \<open>
  \<open>quantile(sorted, q)\<close> of \<open>loadScores.mjs\<close> (lines 14-21; the copies in
  \<open>loadStats.js\<close> and in the earlier version of the page are the same).  The array holds finite
  doubles, its length is an integer that a double holds exactly, and every operation
  rounds: the difference of two elements may be an infinity, and the product of an
  infinity and a zero remainder is \<open>NaN\<close>.  Arithmetic on \<open>undefined\<close> gives \<open>NaN\<close>.  The
  parameter \<open>sorted\<close> of the source is \<open>xs\<close> here.
\<close>

definition quantile :: "numerics \<Rightarrow> rat list \<Rightarrow> jsnum \<Rightarrow> stat" where
  "quantile num xs q =
     (if length xs = 0 then Null
      else
        let pos = fmul num (Num (of_nat (length xs) - 1)) q;
            base = ffloor pos;
            rest = fsub num pos base
        in case at_number xs (fadd num base (Num 1)) of
             None \<Rightarrow>
               (case at_number xs base of None \<Rightarrow> Undefined | Some lo \<Rightarrow> Value (Num lo))
           | Some hi \<Rightarrow>
               (case at_number xs base of
                  None \<Rightarrow> Value NaN
                | Some lo \<Rightarrow>
                    Value (fadd num (Num lo)
                             (fmul num rest (fsub num (Num hi) (Num lo))))))"

section \<open>The summary aggregator for scores\<close>

record variants_stats =
  min_variants :: stat
  max_variants :: stat
  mean :: stat
  median :: stat

record score_summary =
  totalScores :: nat
  uniqueTraits :: nat
  variants :: variants_stats
  topTraits :: "(json \<times> nat) list"
  releaseYears :: "(string \<times> nat) list"

text \<open>
  \<open>scores.map((item) => Number(item.variants_number))\<close>: the conversion of every record,
  in order; the first member access or conversion that throws ends the whole map.
\<close>

fun variant_numbers :: "numerics \<Rightarrow> json list \<Rightarrow> error + jsnum list" where
  "variant_numbers num [] = Inr []"
| "variant_numbers num (item # items) =
     (case member item ''variants_number'' of
        Inl e \<Rightarrow> Inl e
      | Inr v \<Rightarrow>
          (case toNumber num v of
             Inl e \<Rightarrow> Inl e
           | Inr n \<Rightarrow>
               (case variant_numbers num items of
                  Inl e \<Rightarrow> Inl e
                | Inr ns \<Rightarrow> Inr (n # ns))))"

text \<open>
  The constant \<open>variants\<close> of \<open>computeSummary\<close>: the finite converted values, sorted
  ascending by \<open>(a, b) => a - b\<close>.  The sort reads the sign of the difference only, and
  the difference of two finite doubles has the sign of the exact difference: no two
  distinct doubles have a difference that rounds to zero, and a difference out of range
  is the infinity of that sign.
\<close>

definition sorted_variants :: "numerics \<Rightarrow> json list \<Rightarrow> error + rat list" where
  "sorted_variants num scores =
     (case variant_numbers num scores of
        Inl e \<Rightarrow> Inl e
      | Inr ns \<Rightarrow> Inr (js_sort (\<lambda>a b. a - b) (finite_numbers ns)))"

text \<open>\<open>score.trait_reported ?? "NR"\<close>: only \<open>undefined\<close> and \<open>null\<close> give the sentinel.\<close>

definition trait_of :: "json \<Rightarrow> error + json" where
  "trait_of score =
     (case member score ''trait_reported'' of
        Inl e \<Rightarrow> Inl e
      | Inr None \<Rightarrow> Inr (JStr ''NR'')
      | Inr (Some JNull) \<Rightarrow> Inr (JStr ''NR'')
      | Inr (Some v) \<Rightarrow> Inr v)"

text \<open>
  \<open>s.match(/^(\d{4})/)\<close> on a string: the capture is the first four characters when
  they are all decimal digits, and there is no match otherwise.
\<close>

definition is_digit :: "char \<Rightarrow> bool" where
  "is_digit c \<longleftrightarrow> c \<in> set ''0123456789''"

definition match_year :: "string \<Rightarrow> string option" where
  "match_year s =
     (if 4 \<le> length s \<and> list_all is_digit (take 4 s) then Some (take 4 s) else None)"

text \<open>
  \<open>(score.date_release ?? "").match(/^(\d{4})/)\<close>: a release date that is neither a
  string nor \<open>null\<close> nor \<open>undefined\<close> has no method \<open>match\<close>, and the call throws.
\<close>

definition year_of :: "json \<Rightarrow> error + string option" where
  "year_of score =
     (case member score ''date_release'' of
        Inl e \<Rightarrow> Inl e
      | Inr None \<Rightarrow> Inr (match_year [])
      | Inr (Some JNull) \<Rightarrow> Inr (match_year [])
      | Inr (Some (JStr s)) \<Rightarrow> Inr (match_year s)
      | Inr (Some _) \<Rightarrow> Inl TypeError)"

text \<open>
  The \<open>for (const score of scores)\<close> loop, on the two maps \<open>byTrait\<close> and
  \<open>byReleaseYear\<close>.  Strings are primitive, so the keys of \<open>byReleaseYear\<close> are equal
  when they are the same string.
\<close>

fun tally ::
  "json list \<Rightarrow> (json \<times> nat) list \<times> (string \<times> nat) list \<Rightarrow>
   error + (json \<times> nat) list \<times> (string \<times> nat) list" where
  "tally [] maps = Inr maps"
| "tally (score # rest) (byTrait, byReleaseYear) =
     (case trait_of score of
        Inl e \<Rightarrow> Inl e
      | Inr trait \<Rightarrow>
          (case year_of score of
             Inl e \<Rightarrow> Inl e
           | Inr None \<Rightarrow> tally rest (increment sameValueZero byTrait trait, byReleaseYear)
           | Inr (Some y) \<Rightarrow>
               tally rest (increment sameValueZero byTrait trait,
                           increment (=) byReleaseYear y)))"

text \<open>
  \<open>Number(s)\<close> on a string of decimal digits, which is all the comparator of
  \<open>releaseYears\<close> is applied to.
\<close>

definition digit_value :: "char \<Rightarrow> nat" where
  "digit_value c = of_char c - 48"

definition number_of_digits :: "string \<Rightarrow> nat" where
  "number_of_digits s = foldl (\<lambda>n c. 10 * n + digit_value c) 0 s"

text \<open>The comparators \<open>(a, b) => b[1] - a[1]\<close> and \<open>(a, b) => Number(a[0]) - Number(b[0])\<close>.\<close>

definition by_count_descending :: "'k \<times> nat \<Rightarrow> 'k \<times> nat \<Rightarrow> rat" where
  "by_count_descending a b = of_nat (snd b) - of_nat (snd a)"

definition by_year_ascending :: "string \<times> nat \<Rightarrow> string \<times> nat \<Rightarrow> rat" where
  "by_year_ascending a b = of_nat (number_of_digits (fst a)) - of_nat (number_of_digits (fst b))"

text \<open>\<open>variants[0] ?? null\<close> and \<open>variants[variants.length - 1] ?? null\<close>.\<close>

definition or_null :: "rat option \<Rightarrow> stat" where
  "or_null v = (case v of None \<Rightarrow> Null | Some x \<Rightarrow> Value (Num x))"

text \<open>
  \<open>variants.reduce((sum, n) => sum + n, 0) / variants.length\<close>, for an array that is not
  empty: every addition rounds and may reach an infinity.
\<close>

definition mean_of :: "numerics \<Rightarrow> rat list \<Rightarrow> jsnum" where
  "mean_of num vs =
     fdiv_count num (foldl (\<lambda>sum n. fadd num sum (Num n)) (Num 0) vs) (length vs)"

text \<open>
  \<open>computeSummary(scores)\<close> of \<open>loadScores.mjs\<close> (lines 91-130); \<open>loadStats.js\<close> and the
  earlier version of the page hold the same function.  It throws when a record is \<open>null\<close>, when a
  conversion throws, or when a release date has no \<open>match\<close>.
\<close>

definition computeSummary :: "numerics \<Rightarrow> json list \<Rightarrow> error + score_summary" where
  "computeSummary num scores =
     (case sorted_variants num scores of
        Inl e \<Rightarrow> Inl e
      | Inr vs \<Rightarrow>
          (case tally scores ([], []) of
             Inl e \<Rightarrow> Inl e
           | Inr (byTrait, byReleaseYear) \<Rightarrow>
               Inr \<lparr>totalScores = length scores,
                    uniqueTraits = length byTrait,
                    variants =
                      \<lparr>min_variants = or_null (at_index vs 0),
                       max_variants = or_null (at_index vs (int (length vs) - 1)),
                       mean = (if length vs \<noteq> 0 then Value (mean_of num vs) else Null),
                       median = quantile num vs (Num (1 / 2))\<rparr>,
                    topTraits = take 10 (js_sort by_count_descending byTrait),
                    releaseYears = js_sort by_year_ascending byReleaseYear\<rparr>))"

section \<open>The summary aggregator for traits\<close>

record trait_summary =
  traits :: "json list"
  totaltraits :: nat
  totalCategories :: nat
  categories :: "(json \<times> nat) list"

text \<open>
  \<open>Array.isArray(trait?.trait_categories) && trait.trait_categories.length
    ? trait.trait_categories : ["NR"]\<close> of \<open>loadTraits.js\<close>; the optional chaining makes the
  access on \<open>null\<close> yield \<open>undefined\<close>.
\<close>

definition categories_of :: "json \<Rightarrow> json list" where
  "categories_of trait =
     (case trait of
        JNull \<Rightarrow> [JStr ''NR'']
      | _ \<Rightarrow>
        (case member trait ''trait_categories'' of
           Inr (Some (JArr cs)) \<Rightarrow> if length cs \<noteq> 0 then cs else [JStr ''NR'']
         | _ \<Rightarrow> [JStr ''NR'']))"

text \<open>The two nested loops of \<open>computeSummary\<close> in \<open>loadTraits.js\<close>.\<close>

fun tally_categories :: "json list \<Rightarrow> (json \<times> nat) list \<Rightarrow> (json \<times> nat) list" where
  "tally_categories [] byCategory = byCategory"
| "tally_categories (trait # rest) byCategory =
     tally_categories rest (foldl (increment sameValueZero) byCategory (categories_of trait))"

text \<open>\<open>computeSummary(traits)\<close> of \<open>loadTraits.js\<close> (lines 141-164).\<close>

definition computeSummary_traits :: "json list \<Rightarrow> trait_summary" where
  "computeSummary_traits ts =
     (let byCategory = tally_categories ts []
      in \<lparr>traits = ts,
          totaltraits = length ts,
          totalCategories = length byCategory,
          categories = js_sort by_count_descending byCategory\<rparr>)"

section \<open>The summary aggregator of the script variant\<close>

text \<open>
  \<open>loadPgs.js\<close> holds an older aggregator, \<open>computeScoreSummary\<close>, with more tables.  Its
  \<open>quantile\<close> tests the length after computing the position and is otherwise the function
  above, with the same results.
\<close>

record variants_number_stats = variants_stats +
  n_with_value :: nat
  p95 :: stat

record score_counts =
  genome_build :: "(json \<times> nat) list"
  license :: "(json \<times> nat) list"
  weight_type :: "(json \<times> nat) list"
  release_year :: "(json \<times> nat) list"
  top_25_traits :: "(json \<times> nat) list"

record pgs_summary =
  total_scores :: nat
  variants_number :: variants_number_stats
  missing_ftp_scoring_file :: nat
  counts :: score_counts

text \<open>\<open>inc(map, key)\<close>: the key is \<open>k = key ?? "NR"\<close>.\<close>

definition key_or_NR :: "json option \<Rightarrow> json" where
  "key_or_NR key = (case key of None \<Rightarrow> JStr ''NR'' | Some JNull \<Rightarrow> JStr ''NR'' | Some k \<Rightarrow> k)"

definition inc :: "(json \<times> nat) list \<Rightarrow> json option \<Rightarrow> (json \<times> nat) list" where
  "inc m key = increment sameValueZero m (key_or_NR key)"

text \<open>
  \<open>parseYear(dateStr)\<close>: \<open>null\<close> (\<open>None\<close>) unless the value is a string that is not empty
  and starts with four digits, whose number it returns.
\<close>

definition parseYear :: "json option \<Rightarrow> nat option" where
  "parseYear dateStr =
     (case dateStr of
        Some (JStr s) \<Rightarrow>
          if s = [] then None else map_option number_of_digits (match_year s)
      | _ \<Rightarrow> None)"

text \<open>
  \<open>String(y)\<close> for a natural number: its decimal digits, produced from the last one
  to the first.
\<close>

definition digit_char :: "nat \<Rightarrow> char" where
  "digit_char d = char_of (of_char (CHR ''0'') + d)"

fun decimal_digits :: "nat \<Rightarrow> string \<Rightarrow> string" where
  "decimal_digits n acc =
     (if n < 10 then digit_char n # acc
      else decimal_digits (n div 10) (digit_char (n mod 10) # acc))"

definition number_to_string :: "nat \<Rightarrow> string" where
  "number_to_string n = decimal_digits n []"

text \<open>Whether a value is truthy; \<open>undefined\<close> is \<open>None\<close>.\<close>

fun truthy :: "json option \<Rightarrow> bool" where
  "truthy None = False"
| "truthy (Some JNull) = False"
| "truthy (Some (JBool b)) = b"
| "truthy (Some (JNum r)) = (r \<noteq> 0)"
| "truthy (Some (JInf positive)) = True"
| "truthy (Some (JStr s)) = (s \<noteq> [])"
| "truthy (Some v) = True"

text \<open>The five maps and the counter of the loop.\<close>

record pgs_tables =
  byGenomeBuild :: "(json \<times> nat) list"
  byLicense :: "(json \<times> nat) list"
  byWeightType :: "(json \<times> nat) list"
  byTrait :: "(json \<times> nat) list"
  byReleaseYear :: "(json \<times> nat) list"
  missingFtp :: nat

text \<open>
  The loop \<open>for (const s of scores)\<close> of \<open>computeScoreSummary\<close>.  A member access throws on
  \<open>null\<close> only, whatever the member.
\<close>

fun tally_pgs :: "json list \<Rightarrow> pgs_tables \<Rightarrow> error + pgs_tables" where
  "tally_pgs [] tables = Inr tables"
| "tally_pgs (s # rest) tables =
     (case (member s ''genome_build'', member s ''license'', member s ''weight_type'',
            member s ''trait_reported'', member s ''date_release'',
            member s ''ftp_scoring_file'') of
        (Inr gb, Inr li, Inr wt, Inr tr, Inr dr, Inr ftp) \<Rightarrow>
          tally_pgs rest
            \<lparr>byGenomeBuild = inc (byGenomeBuild tables) gb,
             byLicense = inc (byLicense tables) li,
             byWeightType = inc (byWeightType tables) wt,
             byTrait = inc (byTrait tables) tr,
             byReleaseYear =
               (case parseYear dr of
                  None \<Rightarrow> byReleaseYear tables
                | Some y \<Rightarrow>
                    if y \<noteq> 0 then inc (byReleaseYear tables) (Some (JStr (number_to_string y)))
                    else byReleaseYear tables),
             missingFtp = (if \<not> truthy ftp then missingFtp tables + 1 else missingFtp tables)\<rparr>
      | _ \<Rightarrow> Inl TypeError)"

text \<open>
  \<open>computeScoreSummary(scores)\<close> of \<open>loadPgs.js\<close> (lines 89-152).  The literal \<open>0.95\<close> of
  the last quantile is the double nearest to 19/20.
\<close>

definition computeScoreSummary ::
  "numerics \<Rightarrow> json list \<Rightarrow> error + pgs_summary" where
  "computeScoreSummary num recs =
     (case sorted_variants num recs of
        Inl e \<Rightarrow> Inl e
      | Inr vs \<Rightarrow>
          (case tally_pgs recs
                  \<lparr>byGenomeBuild = [], byLicense = [], byWeightType = [], byTrait = [],
                   byReleaseYear = [], missingFtp = 0\<rparr> of
             Inl e \<Rightarrow> Inl e
           | Inr tables \<Rightarrow>
               Inr \<lparr>total_scores = length recs,
                    variants_number =
                      \<lparr>min_variants = or_null (at_index vs 0),
                       max_variants = or_null (at_index vs (int (length vs) - 1)),
                       mean = (if length vs \<noteq> 0 then Value (mean_of num vs) else Null),
                       median = quantile num vs (Num (1 / 2)),
                       n_with_value = length vs,
                       p95 = quantile num vs (nearest num (19 / 20))\<rparr>,
                    missing_ftp_scoring_file = missingFtp tables,
                    counts =
                      \<lparr>genome_build = js_sort by_count_descending (byGenomeBuild tables),
                       license = js_sort by_count_descending (byLicense tables),
                       weight_type = js_sort by_count_descending (byWeightType tables),
                       release_year = js_sort by_count_descending (byReleaseYear tables),
                       top_25_traits =
                         take 25 (js_sort by_count_descending (byTrait tables))\<rparr>\<rparr>))"

section \<open>Dates of the runtime\<close>

text \<open>
  A \<open>Date\<close> holds a time value: milliseconds since the epoch, an integer.  The functions
  below are the abstract operations of the language standard that \<open>getMonth\<close> and
  \<open>setMonth\<close> are defined by.  The offset of local time from UTC belongs to the machine
  the code runs on and is the parameter \<open>tza\<close>: \<open>tza t True\<close> is the offset at the UTC
  time \<open>t\<close>, \<open>tza t False\<close> the offset at the local time \<open>t\<close>.
\<close>

definition msPerDay :: int where
  "msPerDay = 86400000"

definition Day :: "int \<Rightarrow> int" where
  "Day t = t div msPerDay"

definition TimeWithinDay :: "int \<Rightarrow> int" where
  "TimeWithinDay t = t mod msPerDay"

definition DayFromYear :: "int \<Rightarrow> int" where
  "DayFromYear y =
     365 * (y - 1970) + (y - 1969) div 4 - (y - 1901) div 100 + (y - 1601) div 400"

text \<open>A year has between 364 and 367 days: a rough bound that the search below needs.\<close>

lemma div_step:
  "(0::int) < n \<Longrightarrow> x div n \<le> (x + 1) div n \<and> (x + 1) div n \<le> x div n + 1"
proof -
  assume n: "0 < n"
  have 1: "x div n \<le> (x + 1) div n" by (rule zdiv_mono1) (use n in auto)
  have "(x + 1) div n \<le> (x + n) div n" by (rule zdiv_mono1) (use n in auto)
  also have "\<dots> = x div n + 1" using n by simp
  finally show ?thesis using 1 by simp
qed

lemma DayFromYear_step:
  "DayFromYear y + 364 \<le> DayFromYear (y + 1) \<and> DayFromYear (y + 1) \<le> DayFromYear y + 367"
proof -
  define a b c a' b' c' where "a = (y - 1969) div 4" and "b = (y - 1901) div 100"
    and "c = (y - 1601) div 400" and "a' = (y - 1969 + 1) div 4"
    and "b' = (y - 1901 + 1) div 100" and "c' = (y - 1601 + 1) div 400"
  have "a \<le> a'" "a' \<le> a + 1" "b \<le> b'" "b' \<le> b + 1" "c \<le> c'" "c' \<le> c + 1"
    unfolding a_def a'_def b_def b'_def c_def c'_def by (simp_all only: div_step)
  moreover have "DayFromYear y = 365 * (y - 1970) + a - b + c"
    by (simp add: DayFromYear_def a_def b_def c_def)
  moreover have "DayFromYear (y + 1) = 365 * (y + 1 - 1970) + a' - b' + c'"
    by (simp add: DayFromYear_def a'_def b'_def c'_def algebra_simps)
  ultimately show ?thesis by simp
qed

text \<open>
  The standard defines the year of a day as the largest \<open>y\<close> whose first day is not after
  it.  The search starts from a year that is not after the day (a year has at most 366
  days after the epoch, and at least 365 before it) and walks up.
\<close>

function year_search :: "int \<Rightarrow> int \<Rightarrow> int" where
  "year_search d y = (if DayFromYear (y + 1) \<le> d then year_search d (y + 1) else y)"
  by pat_completeness auto
termination
proof (relation "measure (\<lambda>(d, y). nat (d + 1 - DayFromYear (y + 1)))")
  show "wf (measure (\<lambda>(d, y). nat (d + 1 - DayFromYear (y + 1))))"
    by simp
next
  fix d y :: int
  assume "DayFromYear (y + 1) \<le> d"
  then show "((d, y + 1), (d, y)) \<in> measure (\<lambda>(d, y). nat (d + 1 - DayFromYear (y + 1)))"
    using DayFromYear_step[of "y + 1"] by simp
qed

definition YearFromDay :: "int \<Rightarrow> int" where
  "YearFromDay d = year_search d (1970 + (if 0 \<le> d then d div 366 else d div 365))"

definition YearFromTime :: "int \<Rightarrow> int" where
  "YearFromTime t = YearFromDay (Day t)"

definition DaysInYear :: "int \<Rightarrow> int" where
  "DaysInYear y =
     (if y mod 4 \<noteq> 0 then 365
      else if y mod 100 \<noteq> 0 then 366
      else if y mod 400 \<noteq> 0 then 365
      else 366)"

text \<open>The number of days of the year \<open>y\<close> before its month \<open>m\<close> (0 is January).\<close>

definition days_before_month :: "int \<Rightarrow> int \<Rightarrow> int" where
  "days_before_month y m =
     (let leap = DaysInYear y - 365 in
      if m = 0 then 0
      else if m = 1 then 31
      else if m = 2 then 59 + leap
      else if m = 3 then 90 + leap
      else if m = 4 then 120 + leap
      else if m = 5 then 151 + leap
      else if m = 6 then 181 + leap
      else if m = 7 then 212 + leap
      else if m = 8 then 243 + leap
      else if m = 9 then 273 + leap
      else if m = 10 then 304 + leap
      else 334 + leap)"

definition DayWithinYear :: "int \<Rightarrow> int" where
  "DayWithinYear t = Day t - DayFromYear (YearFromTime t)"

definition MonthFromTime :: "int \<Rightarrow> int" where
  "MonthFromTime t =
     (let y = YearFromTime t; d = DayWithinYear t in
      if d < days_before_month y 1 then 0
      else if d < days_before_month y 2 then 1
      else if d < days_before_month y 3 then 2
      else if d < days_before_month y 4 then 3
      else if d < days_before_month y 5 then 4
      else if d < days_before_month y 6 then 5
      else if d < days_before_month y 7 then 6
      else if d < days_before_month y 8 then 7
      else if d < days_before_month y 9 then 8
      else if d < days_before_month y 10 then 9
      else if d < days_before_month y 11 then 10
      else 11)"

definition DateFromTime :: "int \<Rightarrow> int" where
  "DateFromTime t =
     DayWithinYear t - days_before_month (YearFromTime t) (MonthFromTime t) + 1"

text \<open>
  \<open>MakeDay(year, month, date)\<close>: the month may lie outside 0..11 and is carried into
  the year; the date may lie outside the month and is carried into the days.
\<close>

definition MakeDay :: "int \<Rightarrow> int \<Rightarrow> int \<Rightarrow> int" where
  "MakeDay year month date =
     (let ym = year + month div 12; mn = month mod 12
      in DayFromYear ym + days_before_month ym mn + date - 1)"

definition MakeDate :: "int \<Rightarrow> int \<Rightarrow> int" where
  "MakeDate day time = day * msPerDay + time"

definition LocalTime :: "(int \<Rightarrow> bool \<Rightarrow> int) \<Rightarrow> int \<Rightarrow> int" where
  "LocalTime tza t = t + tza t True"

definition UTC :: "(int \<Rightarrow> bool \<Rightarrow> int) \<Rightarrow> int \<Rightarrow> int" where
  "UTC tza t = t - tza t False"

text \<open>\<open>TimeClip\<close>: a time value beyond 100 million days from the epoch is \<open>NaN\<close>.\<close>

definition TimeClip :: "int \<Rightarrow> int option" where
  "TimeClip t = (if \<bar>t\<bar> > 8640000000000000 then None else Some t)"

text \<open>\<open>date.getMonth()\<close> and the time value \<open>date.setMonth(month)\<close> leaves in the date.\<close>

definition getMonth :: "(int \<Rightarrow> bool \<Rightarrow> int) \<Rightarrow> int \<Rightarrow> int" where
  "getMonth tza tv = MonthFromTime (LocalTime tza tv)"

definition setMonth :: "(int \<Rightarrow> bool \<Rightarrow> int) \<Rightarrow> int \<Rightarrow> int \<Rightarrow> int option" where
  "setMonth tza tv month =
     (let t = LocalTime tza tv;
          newDate = MakeDate (MakeDay (YearFromTime t) month (DateFromTime t)) (TimeWithinDay t)
      in TimeClip (UTC tza newDate))"

section \<open>The cache freshness policy\<close>

text \<open>
  What \<open>isCacheWithinMonths\<close> reads from its surroundings: the clock (\<open>new Date()\<close>, a
  time value), the local time zone, and the runtime's parser of date strings
  (\<open>new Date(savedAt)\<close>; \<open>None\<close> is the invalid date, whose \<open>getTime()\<close> is \<open>NaN\<close>).
\<close>

record clock =
  now :: int
  tza :: "int \<Rightarrow> bool \<Rightarrow> int"
  parse_date :: "string \<Rightarrow> int option"

text \<open>
  The constant \<open>cutoff\<close> of \<open>isCacheWithinMonths\<close>:
  \<open>cutoff = new Date(); cutoff.setMonth(cutoff.getMonth() - months)\<close>.
\<close>

definition cutoff :: "'a clock_scheme \<Rightarrow> int \<Rightarrow> int option" where
  "cutoff c months = setMonth (tza c) (now c) (getMonth (tza c) (now c) - months)"

text \<open>
  \<open>isCacheWithinMonths(savedAt, months)\<close> of \<open>loadScores.mjs\<close> (lines 38-46; the copies
  in \<open>loadTraits.js\<close> and in the earlier version of the page are the same).  The stored \<open>savedAt\<close> is a
  string or is missing; the empty string is falsy.  A comparison with \<open>NaN\<close> is false.
\<close>

definition isCacheWithinMonths :: "'a clock_scheme \<Rightarrow> string option \<Rightarrow> int \<Rightarrow> bool" where
  "isCacheWithinMonths c savedAt months =
     (case savedAt of
        None \<Rightarrow> False
      | Some s \<Rightarrow>
          if s = [] then False
          else
            (case parse_date c s of
               None \<Rightarrow> False
             | Some savedDate \<Rightarrow>
                 (case cutoff c months of
                    None \<Rightarrow> False
                  | Some t \<Rightarrow> savedDate \<ge> t)))"

section \<open>The cache store and the orchestrator\<close>

text \<open>
  What \<open>loadScores\<close> returns, and what the store holds under the key
  \<open>pgs:score-summary\<close>.  \<open>saveScoreSummary\<close> of \<open>loadScores.mjs\<close> stores the three members;
  the earlier version of the page stores \<open>savedAt\<close> and \<open>summary\<close> only, under the same
  key, so that an entry may lack its \<open>scores\<close>.  A missing member is \<open>None\<close>.
\<close>

record load_result =
  scores :: "json list"
  summary :: "score_summary option"

record cache_entry =
  savedAt :: "string option"
  stored_summary :: "score_summary option"
  stored_scores :: "json list option"

text \<open>
  The surroundings of one call of \<open>loadScores\<close>: the clock, the network, the runtime's
  conversion to numbers, the string \<open>new Date().toISOString()\<close> yields at the time of
  saving, and whether the store rejects a read or a write.
\<close>

record runtime = clock +
  network :: "nat \<Rightarrow> response"
  conversions :: numerics
  timestamp :: string
  getItem_rejects :: bool
  setItem_rejects :: bool

text \<open>
  \<open>getStoredScoreSummary\<close> and \<open>saveScoreSummary\<close>, on the content of the key.  The
  module \<open>localforage\<close> is imported, so the guards \<open>if (!localforage)\<close> never fire.
\<close>

definition getStoredScoreSummary ::
  "runtime \<Rightarrow> cache_entry option \<Rightarrow> error + cache_entry option" where
  "getStoredScoreSummary rt store = (if getItem_rejects rt then Inl StoreError else Inr store)"

definition saveScoreSummary ::
  "runtime \<Rightarrow> load_result \<Rightarrow> cache_entry option \<Rightarrow> error + cache_entry option" where
  "saveScoreSummary rt results store =
     (if setItem_rejects rt then Inl StoreError
      else Inr (Some \<lparr>savedAt = Some (timestamp rt),
                      stored_summary = summary results,
                      stored_scores = Some (scores results)\<rparr>))"

text \<open>
  The assignments \<open>results.summary = cached.summary; results.scores = cached.scores ?? []\<close>,
  made under the guard \<open>cached?.summary\<close>, and the \<open>catch\<close> block that makes them when
  the guard holds and returns \<open>results\<close> as it stands otherwise.
\<close>

definition recover :: "cache_entry option \<Rightarrow> load_result \<Rightarrow> load_result" where
  "recover cached results =
     (case cached of
        None \<Rightarrow> results
      | Some entry \<Rightarrow>
          (case stored_summary entry of
             None \<Rightarrow> results
           | Some s \<Rightarrow>
               \<lparr>scores = (case stored_scores entry of None \<Rightarrow> [] | Some xs \<Rightarrow> xs),
                summary = Some s\<rparr>))"

text \<open>The guard \<open>cached?.summary && isCacheWithinMonths(cached.savedAt, 3)\<close>.\<close>

definition fresh_hit :: "runtime \<Rightarrow> cache_entry option \<Rightarrow> bool" where
  "fresh_hit rt cached =
     (case cached of
        None \<Rightarrow> False
      | Some entry \<Rightarrow>
          stored_summary entry \<noteq> None \<and> isCacheWithinMonths rt (savedAt entry) 3)"

text \<open>
  \<open>loadScores()\<close> of \<open>loadScores.mjs\<close> (lines 180-218).  It returns what the caller
  receives (an error when the promise rejects) and the content of the key afterwards;
  \<open>None\<close> is a call that never returns, because the fetcher does not.  The read of the
  store stands before the \<open>try\<close>, so that its rejection reaches the caller.
\<close>

definition loadScores ::
  "runtime \<Rightarrow> cache_entry option \<Rightarrow> ((error + load_result) \<times> cache_entry option) option" where
  "loadScores rt store =
     (case getStoredScoreSummary rt store of
        Inl e \<Rightarrow> Some (Inl e, store)
      | Inr cached \<Rightarrow>
          if fresh_hit rt cached
          then Some (Inr (recover cached \<lparr>scores = [], summary = None\<rparr>), store)
          else
            (case fetchAllScores 200 (network rt) of
               None \<Rightarrow> None
             | Some run \<Rightarrow>
                 (case outcome run of
                    Inl e \<Rightarrow> Some (Inr (recover cached \<lparr>scores = [], summary = None\<rparr>), store)
                  | Inr fetched \<Rightarrow>
                      (case computeSummary (conversions rt) fetched of
                         Inl e \<Rightarrow>
                           Some (Inr (recover cached \<lparr>scores = [], summary = None\<rparr>), store)
                       | Inr s \<Rightarrow>
                           (case saveScoreSummary rt \<lparr>scores = fetched, summary = Some s\<rparr> store of
                              Inl e \<Rightarrow>
                                Some (Inr (recover cached \<lparr>scores = fetched, summary = Some s\<rparr>),
                                      store)
                            | Inr store' \<Rightarrow>
                                Some (Inr \<lparr>scores = fetched, summary = Some s\<rparr>, store'))))))"

section \<open>Page sequences\<close>

text \<open>
  The records of an envelope: an object whose member \<open>results\<close> is an array.
\<close>

fun envelope_records :: "json \<Rightarrow> json list option" where
  "envelope_records (JObj kvs) =
     (case map_of kvs ''results'' of Some (JArr rs) \<Rightarrow> Some rs | _ \<Rightarrow> None)"
| "envelope_records v = None"

definition records_of :: "json \<Rightarrow> json list" where
  "records_of d = (case envelope_records d of Some rs \<Rightarrow> rs | None \<Rightarrow> [])"

text \<open>
  A sequence of pages as the specification describes it: every page is an envelope, every
  page but the last has a \<open>next\<close> pointer, and the last one has none and holds fewer
  records than the page size.
\<close>

fun spec_page_sequence :: "nat \<Rightarrow> json list \<Rightarrow> bool" where
  "spec_page_sequence pageSize [] = False"
| "spec_page_sequence pageSize [d] =
     (case envelope_records d of
        Some rs \<Rightarrow> next_is_null d \<and> length rs < pageSize
      | None \<Rightarrow> False)"
| "spec_page_sequence pageSize (d # ds) =
     (case envelope_records d of
        Some rs \<Rightarrow> \<not> next_is_null d \<and> spec_page_sequence pageSize ds
      | None \<Rightarrow> False)"

text \<open>The same, with every page but the last holding at least one record.\<close>

fun envelope_sequence :: "nat \<Rightarrow> json list \<Rightarrow> bool" where
  "envelope_sequence pageSize [] = False"
| "envelope_sequence pageSize [d] =
     (case envelope_records d of
        Some rs \<Rightarrow> next_is_null d \<and> length rs < pageSize
      | None \<Rightarrow> False)"
| "envelope_sequence pageSize (d # ds) =
     (case envelope_records d of
        Some rs \<Rightarrow> \<not> next_is_null d \<and> rs \<noteq> [] \<and> envelope_sequence pageSize ds
      | None \<Rightarrow> False)"

text \<open>
  The offsets at which the pages of a sequence start, the first one at \<open>offset\<close>: each
  page moves the offset by the number of its records.
\<close>

fun offsets_from :: "nat \<Rightarrow> json list \<Rightarrow> nat list" where
  "offsets_from offset [] = []"
| "offsets_from offset (d # ds) = offset # offsets_from (offset + length (records_of d)) ds"

section \<open>The keys of the frequency tables\<close>

text \<open>
  The key each score is counted under in \<open>byTrait\<close>, and the years counted in
  \<open>byReleaseYear\<close>, in the order of the records; a record on which the expression throws
  has none.
\<close>

definition keys_of :: "json list \<Rightarrow> json list" where
  "keys_of recs =
     concat (map (\<lambda>score. case trait_of score of Inr k \<Rightarrow> [k] | Inl e \<Rightarrow> []) recs)"

definition years_of :: "json list \<Rightarrow> string list" where
  "years_of recs =
     concat (map (\<lambda>score. case year_of score of Inr (Some y) \<Rightarrow> [y] | _ \<Rightarrow> []) recs)"

section \<open>The length of a month\<close>

text \<open>The number of days of the month \<open>m\<close> (0 is January) of the year \<open>y\<close>.\<close>

definition DaysInMonth :: "int \<Rightarrow> int \<Rightarrow> int" where
  "DaysInMonth y m =
     (if m = 1 then 28 + (DaysInYear y - 365)
      else if m = 3 \<or> m = 5 \<or> m = 8 \<or> m = 10 then 30
      else 31)"

text \<open>
  The same for the script variant: the key \<open>inc\<close> counts a score under for one of its
  fields, and the year strings counted in its \<open>byReleaseYear\<close>.
\<close>

definition field_keys :: "string \<Rightarrow> json list \<Rightarrow> json list" where
  "field_keys name recs =
     concat (map (\<lambda>s. case member s name of Inr v \<Rightarrow> [key_or_NR v] | Inl e \<Rightarrow> []) recs)"

definition release_keys :: "json list \<Rightarrow> json list" where
  "release_keys recs =
     concat (map (\<lambda>s. case member s ''date_release'' of
                         Inr dr \<Rightarrow>
                           (case parseYear dr of
                              None \<Rightarrow> []
                            | Some y \<Rightarrow> if y \<noteq> 0 then [JStr (number_to_string y)] else [])
                       | Inl e \<Rightarrow> []) recs)"

section \<open>The doubles\<close>



section \<open>Properties of the paginated fetcher\<close>

lemma envelope_records_page:
  "envelope_records d = Some rs \<Longrightarrow> page_results d = Inr rs \<and> \<not> isArray d"
  by (cases d) (auto simp: page_results_def split: option.splits json.splits)

lemma map_upt_Cons:
  "map f [p..<p + length (x # xs)] = y # ys \<longleftrightarrow>
   f p = y \<and> map f [Suc p..<Suc p + length xs] = ys"
proof -
  have "[p..<p + length (x # xs)] = p # [Suc p..<Suc p + length xs]"
    by (simp add: upt_conv_Cons del: upt_Suc)
  then show ?thesis by simp
qed

text \<open>
  The loop on a sequence of envelopes, from any state: by induction along the sequence,
  with the state of the loop generalised.
\<close>

lemma fetch_loop_envelopes:
  "envelope_sequence pageSize ds \<Longrightarrow> map fetch [page..<page + length ds] = map OkBody ds \<Longrightarrow>
   fetch_loop fetch pageSize page offset all reqs =
     Some \<lparr>requested = reqs @ offsets_from offset ds,
           outcome = Inr (all @ concat (map records_of ds))\<rparr>"
proof (induction pageSize ds arbitrary: page offset all reqs rule: envelope_sequence.induct)
  case (1 pageSize)
  then show ?case by simp
next
  case (2 pageSize d)
  then obtain rs where rs: "envelope_records d = Some rs" "next_is_null d" "length rs < pageSize"
    by (auto split: option.splits)
  from 2(2) have f: "fetch page = OkBody d"
    using map_upt_Cons[of fetch page d "[]" "OkBody d" "[]"] by simp
  show ?case
    using rs f envelope_records_page[OF rs(1)]
    by (subst fetch_loop.simps) (simp add: records_of_def)
next
  case (3 pageSize d d' ds)
  then obtain rs where rs: "envelope_records d = Some rs" "\<not> next_is_null d" "rs \<noteq> []"
       "envelope_sequence pageSize (d' # ds)"
    by (auto split: option.splits)
  from 3(3) have f: "fetch page = OkBody d"
    and rest: "map fetch [Suc page..<Suc page + length (d' # ds)] = map OkBody (d' # ds)"
    using map_upt_Cons[of fetch page d "d' # ds" "OkBody d" "map OkBody (d' # ds)"]
    by simp_all
  have step: "fetch_loop fetch pageSize page offset all reqs =
      fetch_loop fetch pageSize (page + 1) (offset + length rs) (all @ rs) (reqs @ [offset])"
    using rs f envelope_records_page[OF rs(1)]
    by (subst fetch_loop.simps) simp
  show ?case
    unfolding step using "3.IH"[OF rs(1) rs(4), of "page + 1"] rest rs(1)
    by (simp add: records_of_def)
qed

text \<open>
  Claim C2, as amended.  For every sequence of pages in which each page is an envelope
  with a \<open>results\<close> array, every page but the last holds at least one record and has a
  \<open>next\<close> pointer, and the last page has no \<open>next\<close> pointer and holds fewer records than
  \<open>pageSize\<close>: when the network delivers these pages to the successive requests,
  \<open>fetchAllScores\<close> returns after the last page, its result is the concatenation of the
  pages' records in the order of the requests, and the offsets it requested advance by
  the number of records of each page.
\<close>

theorem fetchAllScores_envelope_sequence:
  "envelope_sequence pageSize ds \<Longrightarrow> map fetch [0..<length ds] = map OkBody ds \<Longrightarrow>
   fetchAllScores pageSize fetch =
     Some \<lparr>requested = offsets_from 0 ds, outcome = Inr (concat (map records_of ds))\<rparr>"
  unfolding fetchAllScores_def
  using fetch_loop_envelopes[of pageSize ds fetch 0 0 "[]" "[]"] by simp

theorem fetchAllScores_envelope_sequence_witness:
  "envelope_sequence 2
     [JObj [(''results'', JArr [JNum 1, JNum 2]), (''next'', JStr ''p2'')],
      JObj [(''results'', JArr [JNum 3]), (''next'', JNull)]] \<and>
   fetchAllScores 2
     (\<lambda>n. if n = 0 then OkBody (JObj [(''results'', JArr [JNum 1, JNum 2]), (''next'', JStr ''p2'')])
          else if n = 1 then OkBody (JObj [(''results'', JArr [JNum 3]), (''next'', JNull)])
          else Failed) =
     Some \<lparr>requested = [0, 2], outcome = Inr [JNum 1, JNum 2, JNum 3]\<rparr>"
  using fetchAllScores_envelope_sequence[of 2
     "[JObj [(''results'', JArr [JNum 1, JNum 2]), (''next'', JStr ''p2'')],
       JObj [(''results'', JArr [JNum 3]), (''next'', JNull)]]"
     "\<lambda>n. if n = 0 then OkBody (JObj [(''results'', JArr [JNum 1, JNum 2]), (''next'', JStr ''p2'')])
          else if n = 1 then OkBody (JObj [(''results'', JArr [JNum 3]), (''next'', JNull)])
          else Failed"]
  by (simp add: next_is_null_def records_of_def upt_conv_Cons)

text \<open>
  Claim C2 as the specification states it fails: it does not ask the pages before the
  last one to hold records.  With a page size of 200, a first page that is an envelope
  with a \<open>next\<close> pointer and no record, and a second, last page with one record and no
  \<open>next\<close> pointer, the sequence is one the claim speaks of, yet the fetcher stops at the
  empty first page, requests nothing more and returns no record, where the
  concatenation of the pages holds one.
\<close>

theorem fetchAllScores_empty_inner_page:
  "spec_page_sequence 200
     [JObj [(''results'', JArr []), (''next'', JStr ''p2'')],
      JObj [(''results'', JArr [JNum 1]), (''next'', JNull)]] \<and>
   fetchAllScores 200
     (\<lambda>n. if n = 0 then OkBody (JObj [(''results'', JArr []), (''next'', JStr ''p2'')])
          else OkBody (JObj [(''results'', JArr [JNum 1]), (''next'', JNull)])) =
     Some \<lparr>requested = [0], outcome = Inr []\<rparr> \<and>
   concat (map records_of
     [JObj [(''results'', JArr []), (''next'', JStr ''p2'')],
      JObj [(''results'', JArr [JNum 1]), (''next'', JNull)]]) = [JNum 1]"
  by (simp add: next_is_null_def records_of_def fetchAllScores_def fetch_loop.simps[of _ _ 0]
      page_results_def)

text \<open>
  Every run that returns has requested the offset the loop stands at, after the
  requests made before.
\<close>

lemma fetch_loop_requested:
  assumes "fetch_loop fetch pageSize page offset all reqs = Some run"
  shows "\<exists>more. requested run = reqs @ offset # more"
proof (rule fetch_loop.raw_induct[where P = "\<lambda>fetch pageSize page offset all reqs run.
    \<exists>more. requested run = reqs @ offset # more", OF _ assms])
  fix loop :: "(nat \<Rightarrow> response) \<Rightarrow> nat \<Rightarrow> nat \<Rightarrow> nat \<Rightarrow> json list \<Rightarrow> nat list \<Rightarrow> fetch_run option"
  fix fetch pageSize page offset all reqs run
  assume IH: "\<And>fetch pageSize page offset all reqs run.
      loop fetch pageSize page offset all reqs = Some run \<Longrightarrow>
      \<exists>more. requested run = reqs @ offset # more"
  assume body: "(case fetch page of
      Failed \<Rightarrow> Some \<lparr>requested = reqs @ [offset], outcome = Inl NetworkError\<rparr>
    | NotOk status \<Rightarrow>
        Some \<lparr>requested = reqs @ [offset], outcome = Inl (HttpError status offset)\<rparr>
    | OkBody data \<Rightarrow>
        (case page_results data of
           Inl e \<Rightarrow> Some \<lparr>requested = reqs @ [offset], outcome = Inl e\<rparr>
         | Inr results \<Rightarrow>
             if length results = 0
             then Some \<lparr>requested = reqs @ [offset], outcome = Inr (all @ results)\<rparr>
             else if \<not> isArray data \<and> next_is_null data \<and> length results < pageSize
             then Some \<lparr>requested = reqs @ [offset], outcome = Inr (all @ results)\<rparr>
             else loop fetch pageSize (page + 1) (offset + length results)
                    (all @ results) (reqs @ [offset]))) = Some run"
  show "\<exists>more. requested run = reqs @ offset # more"
  proof (cases "fetch page")
    case Failed
    with body show ?thesis by auto
  next
    case (NotOk status)
    with body show ?thesis by auto
  next
    case (OkBody data)
    show ?thesis
    proof (cases "page_results data")
      case (Inl e)
      with body OkBody show ?thesis by auto
    next
      case (Inr results)
      show ?thesis
      proof (cases "length results = 0 \<or>
          (\<not> isArray data \<and> next_is_null data \<and> length results < pageSize)")
        case True
        with body OkBody Inr show ?thesis by (auto split: if_splits)
      next
        case False
        with body OkBody Inr
        have "loop fetch pageSize (page + 1) (offset + length results) (all @ results)
                (reqs @ [offset]) = Some run"
          by (auto split: if_splits)
        from IH[OF this] show ?thesis by auto
      qed
    qed
  qed
qed

text \<open>
  Claim C3, as amended.  The records of a page that is a bare array are taken and added
  to the result as those of an envelope are, but a bare array that holds records never
  ends the run, however short it is: the loop goes on with the offset moved by the length
  of the page, and every run that returns has requested a further page at that offset.
  (A run over bare arrays ends at the first empty page.)
\<close>

theorem fetch_loop_bare_array_continues:
  "fetch page = OkBody (JArr rs) \<Longrightarrow> rs \<noteq> [] \<Longrightarrow>
   page_results (JArr rs) = Inr rs \<and>
   fetch_loop fetch pageSize page offset all reqs =
     fetch_loop fetch pageSize (page + 1) (offset + length rs) (all @ rs) (reqs @ [offset]) \<and>
   (\<forall>run. fetch_loop fetch pageSize page offset all reqs = Some run \<longrightarrow>
      (\<exists>more. requested run = reqs @ [offset, offset + length rs] @ more))"
proof -
  assume f: "fetch page = OkBody (JArr rs)" and rs: "rs \<noteq> []"
  have p: "page_results (JArr rs) = Inr rs" by (simp add: page_results_def)
  have step: "fetch_loop fetch pageSize page offset all reqs =
     fetch_loop fetch pageSize (page + 1) (offset + length rs) (all @ rs) (reqs @ [offset])"
    using f rs p by (subst fetch_loop.simps) simp
  show ?thesis
    using p step fetch_loop_requested[of fetch pageSize "page + 1" "offset + length rs"
      "all @ rs" "reqs @ [offset]"]
    by auto
qed

theorem fetch_loop_bare_array_continues_witness:
  "fetchAllScores 200 (\<lambda>n. if n = 0 then OkBody (JArr [JNum 1]) else OkBody (JArr [])) =
     fetch_loop (\<lambda>n. if n = 0 then OkBody (JArr [JNum 1]) else OkBody (JArr []))
       200 1 1 [JNum 1] [0]"
  using fetch_loop_bare_array_continues[of
     "\<lambda>n. if n = 0 then OkBody (JArr [JNum 1]) else OkBody (JArr [])" 0 "[JNum 1]" 200 0 "[]" "[]"]
  by (simp add: fetchAllScores_def)

text \<open>
  Claim C3 as the specification states it fails.  With a page size of 200, a first page
  that is a bare array of one record is followed by a second request, at offset 1; the
  run ends only when that request is answered with an empty page.
\<close>

theorem fetchAllScores_short_bare_array:
  "fetchAllScores 200 (\<lambda>n. if n = 0 then OkBody (JArr [JNum 1]) else OkBody (JArr [])) =
     Some \<lparr>requested = [0, 1], outcome = Inr [JNum 1]\<rparr> \<and>
   length [JNum 1] < (200::nat)"
  by (simp add: fetchAllScores_def fetch_loop.simps[of _ _ 0] fetch_loop.simps[of _ _ "Suc 0"]
      page_results_def)

section \<open>Properties of sorting and of maps\<close>

text \<open>
  For a comparator that is a difference of keys, \<open>js_sort\<close> is the stable sort by that
  key of the library.
\<close>

lemma insert_sorted_key:
  assumes "\<And>a b. compare a b \<le> 0 \<longleftrightarrow> f a \<le> f b"
  shows "insert_sorted compare x ys = insort_key f x ys"
  by (induction ys) (simp_all add: assms)

lemma js_sort_key:
  assumes "\<And>a b. compare a b \<le> 0 \<longleftrightarrow> f a \<le> f b"
  shows "js_sort compare xs = sort_key f xs"
  by (induction xs) (simp_all add: js_sort_def sort_key_def insert_sorted_key[OF assms])

lemma js_sort_by_count_descending:
  "js_sort by_count_descending xs = sort_key (\<lambda>e. - int (snd e)) xs"
  by (rule js_sort_key) (simp add: by_count_descending_def)

lemma js_sort_by_year_ascending:
  "js_sort by_year_ascending xs = sort_key (\<lambda>e. number_of_digits (fst e)) xs"
  by (rule js_sort_key) (simp add: by_year_ascending_def)

lemma js_sort_ascending: "js_sort (\<lambda>a b. a - b) xs = sort_key (\<lambda>x. x) (xs :: rat list)"
  by (rule js_sort_key) simp

lemma sorted_by_count_descending:
  "sorted_wrt (\<lambda>a b. snd b \<le> snd a) (js_sort by_count_descending xs)"
proof -
  have "sorted (map (\<lambda>e. - int (snd e)) (sort_key (\<lambda>e. - int (snd e)) xs))"
    by (rule sorted_sort_key)
  then show ?thesis
    by (simp add: js_sort_by_count_descending sorted_map)
qed

lemma sorted_by_year_ascending:
  "sorted_wrt (\<lambda>a b. number_of_digits (fst a) \<le> number_of_digits (fst b))
     (js_sort by_year_ascending xs)"
proof -
  have "sorted (map (\<lambda>e. number_of_digits (fst e))
          (sort_key (\<lambda>e. number_of_digits (fst e)) xs))"
    by (rule sorted_sort_key)
  then show ?thesis
    by (simp add: js_sort_by_year_ascending sorted_map)
qed

lemma mset_js_sort_by_count: "mset (js_sort by_count_descending xs) = mset xs"
  by (simp add: js_sort_by_count_descending)

lemma mset_js_sort_by_year: "mset (js_sort by_year_ascending xs) = mset xs"
  by (simp add: js_sort_by_year_ascending)

text \<open>
  Reading a map after a write, for a key comparison under which equal keys are the same
  value (SameValueZero on parsed bodies, and equality of strings).
\<close>

lemma map_get_map_set:
  assumes "\<And>a b. same a b \<Longrightarrow> a = b"
  shows "map_get same (map_set same m k v) k' =
           (if same k k' then Some v else map_get same m k')"
proof (cases "same k k'")
  case True
  then have eq: "k = k'" by (rule assms)
  have "map_get same (map_set same m k v) k = Some v"
    using True unfolding eq by (induction m) auto
  with True eq show ?thesis by simp
next
  case False
  have "map_get same (map_set same m k v) k' = map_get same m k'"
  proof (induction m)
    case Nil
    show ?case using False by simp
  next
    case (Cons e m)
    obtain k0 v0 where e: "e = (k0, v0)" by (cases e)
    show ?case
    proof (cases "same k0 k")
      case True
      then have "k0 = k" by (rule assms)
      with True False e show ?thesis by simp
    next
      case no: False
      with e Cons.IH show ?thesis by simp
    qed
  qed
  with False show ?thesis by simp
qed

lemma map_get_increment:
  assumes "\<And>a b. same a b \<Longrightarrow> a = b"
  shows "map_get same (increment same m k) k' =
           (if same k k'
            then Some ((case map_get same m k' of None \<Rightarrow> 0 | Some c \<Rightarrow> c) + 1)
            else map_get same m k')"
proof (cases "same k k'")
  case True
  then have "k = k'" by (rule assms)
  with True show ?thesis
    by (simp add: increment_def map_get_map_set[of same, OF assms])
next
  case False
  then show ?thesis
    by (simp add: increment_def map_get_map_set[of same, OF assms])
qed

text \<open>
  The count a map holds for a key after a run of increments: what it held before, plus
  the number of increments whose key is the same.
\<close>

lemma map_get_foldl_increment:
  assumes "\<And>a b. same a b \<Longrightarrow> a = b"
  shows "map_get same (foldl (increment same) m ks) k' =
           (let n = length (filter (\<lambda>k. same k k') ks) in
            case map_get same m k' of
              None \<Rightarrow> if n = 0 then None else Some n
            | Some c \<Rightarrow> Some (c + n))"
proof (induction ks arbitrary: m)
  case Nil
  show ?case by (simp split: option.splits)
next
  case (Cons k ks)
  show ?case
    by (simp add: Cons.IH map_get_increment[of same, OF assms] Let_def split: option.splits)
qed

text \<open>The keys of a map after a write: the key is added at the end unless it is there.\<close>

lemma keys_map_set:
  assumes "\<And>a b. same a b \<Longrightarrow> a = b"
  shows "map fst (map_set same m k v) =
           (if map_get same m k = None then map fst m @ [k] else map fst m)"
proof (induction m)
  case Nil
  show ?case by simp
next
  case (Cons e m)
  obtain k0 v0 where e: "e = (k0, v0)" by (cases e)
  show ?case using Cons.IH e by (auto dest: assms)
qed

lemma keys_increment:
  assumes "\<And>a b. same a b \<Longrightarrow> a = b"
  shows "map fst (increment same m k) =
           (if map_get same m k = None then map fst m @ [k] else map fst m)"
  by (simp add: increment_def keys_map_set[of same, OF assms])

lemma map_get_Some_key:
  "map_get same m k = Some v \<Longrightarrow> \<exists>k0. k0 \<in> set (map fst m) \<and> same k0 k"
proof (induction m)
  case Nil
  then show ?case by simp
next
  case (Cons e m)
  obtain k0 v0 where e: "e = (k0, v0)" by (cases e)
  show ?case
  proof (cases "same k0 k")
    case True
    with e show ?thesis by auto
  next
    case False
    with Cons e obtain k1 where "k1 \<in> set (map fst m)" "same k1 k" by auto
    then show ?thesis by auto
  qed
qed

lemma map_get_None_key:
  "map_get same m k = None \<Longrightarrow> k0 \<in> set (map fst m) \<Longrightarrow> \<not> same k0 k"
proof (induction m)
  case Nil
  then show ?case by simp
next
  case (Cons e m)
  obtain k1 v1 where e: "e = (k1, v1)" by (cases e)
  from Cons.prems(1) e have no: "\<not> same k1 k" and rest: "map_get same m k = None"
    by (auto split: if_splits)
  from Cons.prems(2) e have "k0 = k1 \<or> k0 \<in> set (map fst m)" by auto
  then show ?case using no Cons.IH[OF rest] by auto
qed

lemma set_keys_increment:
  assumes "\<And>a b. same a b \<Longrightarrow> a = b"
  shows "set (map fst (increment same m k)) = insert k (set (map fst m))"
proof (cases "map_get same m k")
  case None
  then show ?thesis by (simp add: keys_increment[of same, OF assms])
next
  case (Some v)
  then obtain k0 where "k0 \<in> set (map fst m)" "same k0 k"
    using map_get_Some_key[of same m k v] by blast
  then have "k \<in> set (map fst m)" using assms by auto
  with Some show ?thesis by (auto simp add: keys_increment[of same, OF assms])
qed

lemma set_keys_foldl_increment:
  assumes "\<And>a b. same a b \<Longrightarrow> a = b"
  shows "set (map fst (foldl (increment same) m ks)) = set (map fst m) \<union> set ks"
proof (induction ks arbitrary: m)
  case Nil
  show ?case by simp
next
  case (Cons k ks)
  have "set (map fst (foldl (increment same) (increment same m k) ks)) =
          set (map fst (increment same m k)) \<union> set ks"
    by (rule Cons.IH)
  also have "\<dots> = insert k (set (map fst m)) \<union> set ks"
    by (simp only: set_keys_increment[of same, OF assms])
  finally show ?case by simp
qed

text \<open>A primitive key stands once in a map of counts; strings, all primitive, too.\<close>

lemma sameValueZero_eq: "sameValueZero a b \<Longrightarrow> a = b"
  by (simp add: sameValueZero_def)

lemma distinct_primitive_increment:
  assumes "distinct (filter primitive (map fst m))"
  shows "distinct (filter primitive (map fst (increment sameValueZero m k)))"
proof (cases "map_get sameValueZero m k")
  case None
  have "k \<notin> set (map fst m)" if "primitive k"
  proof
    assume "k \<in> set (map fst m)"
    from map_get_None_key[OF None this] that show False
      by (simp add: sameValueZero_def)
  qed
  with None assms show ?thesis
    by (auto simp add: keys_increment[of sameValueZero, OF sameValueZero_eq])
next
  case (Some v)
  with assms show ?thesis
    by (simp add: keys_increment[of sameValueZero, OF sameValueZero_eq])
qed

lemma distinct_primitive_foldl_increment:
  "distinct (filter primitive (map fst m)) \<Longrightarrow>
   distinct (filter primitive (map fst (foldl (increment sameValueZero) m ks)))"
  by (induction ks arbitrary: m) (simp_all add: distinct_primitive_increment)

lemma distinct_increment:
  assumes "distinct (map fst m)"
  shows "distinct (map fst (increment (=) m k))"
proof (cases "map_get (=) m k")
  case None
  have "k \<notin> set (map fst m)"
    using map_get_None_key[OF None, of k] by auto
  with None assms show ?thesis
    by (simp add: keys_increment[of "(=)"])
next
  case (Some v)
  with assms show ?thesis
    by (simp add: keys_increment[of "(=)"])
qed

lemma distinct_foldl_increment:
  "distinct (map fst m) \<Longrightarrow> distinct (map fst (foldl (increment (=)) m ks))"
  by (induction ks arbitrary: m) (simp_all add: distinct_increment)

section \<open>Properties of the aggregators\<close>

text \<open>
  The loop of \<open>computeSummary\<close> is a run of increments: of \<open>byTrait\<close> under the keys of
  the scores, of \<open>byReleaseYear\<close> under their years.
\<close>

lemma tally_fold:
  "tally recs (traitTable, yearTable) = Inr (traitTable', yearTable') \<Longrightarrow>
   traitTable' = foldl (increment sameValueZero) traitTable (keys_of recs) \<and>
   yearTable' = foldl (increment (=)) yearTable (years_of recs)"
proof (induction recs arbitrary: traitTable yearTable)
  case Nil
  then show ?case by (simp add: keys_of_def years_of_def)
next
  case (Cons score rest)
  from Cons.prems obtain trait where t: "trait_of score = Inr trait"
    by (auto split: sum.splits)
  from Cons.prems t obtain y where y: "year_of score = Inr y"
    by (auto split: sum.splits)
  show ?case
  proof (cases y)
    case None
    with Cons.prems t y
    have "tally rest (increment sameValueZero traitTable trait, yearTable) = Inr (traitTable', yearTable')"
      by simp
    from Cons.IH[OF this] t y None show ?thesis
      by (simp add: keys_of_def years_of_def)
  next
    case (Some year)
    with Cons.prems t y
    have "tally rest (increment sameValueZero traitTable trait, increment (=) yearTable year) =
            Inr (traitTable', yearTable')"
      by simp
    from Cons.IH[OF this] t y Some show ?thesis
      by (simp add: keys_of_def years_of_def)
  qed
qed

lemma tally_categories_fold:
  "tally_categories ts m = foldl (increment sameValueZero) m (concat (map categories_of ts))"
  by (induction ts arbitrary: m) simp_all

lemma count_keys_of:
  "length (filter (\<lambda>k'. k' = k) (keys_of recs)) =
   length (filter (\<lambda>score. trait_of score = Inr k) recs)"
  by (induction recs) (auto simp: keys_of_def split: sum.splits)

lemma sameValueZero_primitive: "primitive k \<Longrightarrow> sameValueZero k' k \<longleftrightarrow> k' = k"
  by (auto simp: sameValueZero_def)

lemma map_get_count:
  assumes "primitive k"
  shows "map_get sameValueZero (foldl (increment sameValueZero) [] ks) k =
           (let n = length (filter (\<lambda>k'. k' = k) ks) in if n = 0 then None else Some n)"
  using assms
  by (simp add: map_get_foldl_increment[of sameValueZero, OF sameValueZero_eq]
      sameValueZero_primitive)

lemma map_get_mem:
  assumes "distinct (filter primitive (map fst m))" and "primitive k"
  shows "map_get sameValueZero m k = Some v \<longleftrightarrow> (k, v) \<in> set m"
  using assms(1)
proof (induction m)
  case Nil
  show ?case by simp
next
  case (Cons e m)
  obtain k0 v0 where e: "e = (k0, v0)" by (cases e)
  show ?case
  proof (cases "k0 = k")
    case True
    with Cons.prems e assms(2) have "k \<notin> fst ` set m" by auto
    then have "(k, v) \<notin> set m" by force
    with True e assms(2) show ?thesis by (auto simp: sameValueZero_def)
  next
    case False
    from Cons.prems have "distinct (filter primitive (map fst m))"
      by (simp split: if_splits)
    from Cons.IH[OF this] False e show ?thesis by (auto simp: sameValueZero_def)
  qed
qed

text \<open>
  The loop of \<open>computeScoreSummary\<close> is a run of increments too, of each of its five
  maps under the keys \<open>inc\<close> is called with.
\<close>

lemma tally_pgs_fold:
  "tally_pgs recs t = Inr t' \<Longrightarrow>
   byGenomeBuild t' =
     foldl (increment sameValueZero) (byGenomeBuild t) (field_keys ''genome_build'' recs) \<and>
   byLicense t' =
     foldl (increment sameValueZero) (byLicense t) (field_keys ''license'' recs) \<and>
   byWeightType t' =
     foldl (increment sameValueZero) (byWeightType t) (field_keys ''weight_type'' recs) \<and>
   byTrait t' =
     foldl (increment sameValueZero) (byTrait t) (field_keys ''trait_reported'' recs) \<and>
   byReleaseYear t' =
     foldl (increment sameValueZero) (byReleaseYear t) (release_keys recs)"
proof (induction recs arbitrary: t)
  case Nil
  then show ?case by (simp add: field_keys_def release_keys_def)
next
  case (Cons s rest)
  from Cons.prems obtain gb li wt tr dr ftp where
    m: "member s ''genome_build'' = Inr gb" "member s ''license'' = Inr li"
       "member s ''weight_type'' = Inr wt" "member s ''trait_reported'' = Inr tr"
       "member s ''date_release'' = Inr dr" "member s ''ftp_scoring_file'' = Inr ftp"
    by (auto split: sum.splits)
  let ?t = "\<lparr>byGenomeBuild = inc (byGenomeBuild t) gb,
             byLicense = inc (byLicense t) li,
             byWeightType = inc (byWeightType t) wt,
             byTrait = inc (byTrait t) tr,
             byReleaseYear =
               (case parseYear dr of
                  None \<Rightarrow> byReleaseYear t
                | Some y \<Rightarrow>
                    if y \<noteq> 0 then inc (byReleaseYear t) (Some (JStr (number_to_string y)))
                    else byReleaseYear t),
             missingFtp = (if \<not> truthy ftp then missingFtp t + 1 else missingFtp t)\<rparr>"
  from Cons.prems m have "tally_pgs rest ?t = Inr t'" by simp
  from Cons.IH[OF this] show ?case
    by (simp add: field_keys_def release_keys_def m inc_def key_or_NR_def split: option.splits)
qed

lemma primitive_release_keys: "k \<in> set (release_keys recs) \<Longrightarrow> primitive k"
  by (auto simp: release_keys_def split: sum.splits option.splits if_splits)

lemma filter_all: "(\<And>x. x \<in> set xs \<Longrightarrow> P x) \<Longrightarrow> filter P xs = xs"
  by (induction xs) simp_all

lemma number_to_string_2021: "number_to_string 2021 = ''2021''"
  by code_simp

text \<open>
  Claim C4, as amended.  The summary of the scores counts every record in a table that
  has one entry for each distinct (primitive) key of the input, and reports the size of
  that table as \<open>uniqueTraits\<close>; but \<open>topTraits\<close> holds the first ten entries only of that
  table sorted by count, all of them when there are at most ten.  The table of release
  years is not cut, and neither is the table of categories of the summary of the traits:
  each holds one entry for every distinct key of its input.  The summary of the script
  variant counts the scores in five tables with one entry for each distinct key of their
  field; it cuts its table of traits after 25 entries and exposes the other four whole.
\<close>

theorem computeSummary_tables:
  "(computeSummary num recs = Inr s \<longrightarrow>
     (\<exists>traitTable yearTable.
        tally recs ([], []) = Inr (traitTable, yearTable) \<and>
        set (map fst traitTable) = set (keys_of recs) \<and>
        distinct (filter primitive (map fst traitTable)) \<and>
        uniqueTraits s = length traitTable \<and>
        topTraits s = take 10 (js_sort by_count_descending traitTable) \<and>
        length (topTraits s) = min 10 (uniqueTraits s) \<and>
        mset (releaseYears s) = mset yearTable \<and>
        set (map fst yearTable) = set (years_of recs) \<and>
        distinct (map fst yearTable))) \<and>
   mset (categories (computeSummary_traits ts)) = mset (tally_categories ts []) \<and>
   totalCategories (computeSummary_traits ts) = length (categories (computeSummary_traits ts)) \<and>
   set (map fst (tally_categories ts [])) = set (concat (map categories_of ts)) \<and>
   distinct (filter primitive (map fst (tally_categories ts []))) \<and>
   (computeScoreSummary num recs = Inr ps \<longrightarrow>
     (\<exists>tables.
        tally_pgs recs
          \<lparr>byGenomeBuild = [], byLicense = [], byWeightType = [], byTrait = [],
           byReleaseYear = [], missingFtp = 0\<rparr> = Inr tables \<and>
        set (map fst (byTrait tables)) = set (field_keys ''trait_reported'' recs) \<and>
        distinct (filter primitive (map fst (byTrait tables))) \<and>
        top_25_traits (counts ps) = take 25 (js_sort by_count_descending (byTrait tables)) \<and>
        length (top_25_traits (counts ps)) = min 25 (length (byTrait tables)) \<and>
        mset (genome_build (counts ps)) = mset (byGenomeBuild tables) \<and>
        set (map fst (byGenomeBuild tables)) = set (field_keys ''genome_build'' recs) \<and>
        distinct (filter primitive (map fst (byGenomeBuild tables))) \<and>
        mset (license (counts ps)) = mset (byLicense tables) \<and>
        set (map fst (byLicense tables)) = set (field_keys ''license'' recs) \<and>
        distinct (filter primitive (map fst (byLicense tables))) \<and>
        mset (weight_type (counts ps)) = mset (byWeightType tables) \<and>
        set (map fst (byWeightType tables)) = set (field_keys ''weight_type'' recs) \<and>
        distinct (filter primitive (map fst (byWeightType tables))) \<and>
        mset (release_year (counts ps)) = mset (byReleaseYear tables) \<and>
        set (map fst (byReleaseYear tables)) = set (release_keys recs) \<and>
        distinct (map fst (byReleaseYear tables))))"
proof -
  have A: "\<exists>traitTable yearTable.
        tally recs ([], []) = Inr (traitTable, yearTable) \<and>
        set (map fst traitTable) = set (keys_of recs) \<and>
        distinct (filter primitive (map fst traitTable)) \<and>
        uniqueTraits s = length traitTable \<and>
        topTraits s = take 10 (js_sort by_count_descending traitTable) \<and>
        length (topTraits s) = min 10 (uniqueTraits s) \<and>
        mset (releaseYears s) = mset yearTable \<and>
        set (map fst yearTable) = set (years_of recs) \<and>
        distinct (map fst yearTable)"
    if cs: "computeSummary num recs = Inr s"
  proof -
    from cs obtain traitTable yearTable where
      t: "tally recs ([], []) = Inr (traitTable, yearTable)" and
      s: "uniqueTraits s = length traitTable"
         "topTraits s = take 10 (js_sort by_count_descending traitTable)"
         "releaseYears s = js_sort by_year_ascending yearTable"
      by (auto simp: computeSummary_def split: sum.splits prod.splits)
    from tally_fold[OF t]
    have bt: "traitTable = foldl (increment sameValueZero) [] (keys_of recs)"
      and yr: "yearTable = foldl (increment (=)) [] (years_of recs)"
      by simp_all
    have 1: "set (map fst traitTable) = set (keys_of recs)"
      unfolding bt using set_keys_foldl_increment[of sameValueZero "[]", OF sameValueZero_eq]
      by simp
    have 2: "distinct (filter primitive (map fst traitTable))"
      unfolding bt by (rule distinct_primitive_foldl_increment) simp
    have 3: "set (map fst yearTable) = set (years_of recs)"
      unfolding yr using set_keys_foldl_increment[of "(=)" "[]"] by simp
    have 4: "distinct (map fst yearTable)"
      unfolding yr by (rule distinct_foldl_increment) simp
    have len: "length (js_sort by_count_descending traitTable) = length traitTable"
      using mset_js_sort_by_count[of traitTable] by (metis size_mset)
    have 5: "length (topTraits s) = min 10 (uniqueTraits s)"
      using len by (simp add: s min.commute)
    have 10: "mset (releaseYears s) = mset yearTable"
      by (simp add: s mset_js_sort_by_year)
    have "tally recs ([], []) = Inr (traitTable, yearTable) \<and>
        set (map fst traitTable) = set (keys_of recs) \<and>
        distinct (filter primitive (map fst traitTable)) \<and>
        uniqueTraits s = length traitTable \<and>
        topTraits s = take 10 (js_sort by_count_descending traitTable) \<and>
        length (topTraits s) = min 10 (uniqueTraits s) \<and>
        mset (releaseYears s) = mset yearTable \<and>
        set (map fst yearTable) = set (years_of recs) \<and>
        distinct (map fst yearTable)"
      using t 1 2 3 4 5 10 by (simp add: s)
    then show ?thesis by blast
  qed
  have 6: "mset (categories (computeSummary_traits ts)) = mset (tally_categories ts [])"
    by (simp add: computeSummary_traits_def Let_def mset_js_sort_by_count)
  have 7: "totalCategories (computeSummary_traits ts) =
             length (categories (computeSummary_traits ts))"
    using mset_js_sort_by_count[of "tally_categories ts []"]
    by (simp add: computeSummary_traits_def Let_def) (metis size_mset)
  have 8: "set (map fst (tally_categories ts [])) = set (concat (map categories_of ts))"
    unfolding tally_categories_fold
    using set_keys_foldl_increment[of sameValueZero "[]", OF sameValueZero_eq]
    by simp
  have 9: "distinct (filter primitive (map fst (tally_categories ts [])))"
    unfolding tally_categories_fold by (rule distinct_primitive_foldl_increment) simp
  have C: "\<exists>tables.
        tally_pgs recs
          \<lparr>byGenomeBuild = [], byLicense = [], byWeightType = [], byTrait = [],
           byReleaseYear = [], missingFtp = 0\<rparr> = Inr tables \<and>
        set (map fst (byTrait tables)) = set (field_keys ''trait_reported'' recs) \<and>
        distinct (filter primitive (map fst (byTrait tables))) \<and>
        top_25_traits (counts ps) = take 25 (js_sort by_count_descending (byTrait tables)) \<and>
        length (top_25_traits (counts ps)) = min 25 (length (byTrait tables)) \<and>
        mset (genome_build (counts ps)) = mset (byGenomeBuild tables) \<and>
        set (map fst (byGenomeBuild tables)) = set (field_keys ''genome_build'' recs) \<and>
        distinct (filter primitive (map fst (byGenomeBuild tables))) \<and>
        mset (license (counts ps)) = mset (byLicense tables) \<and>
        set (map fst (byLicense tables)) = set (field_keys ''license'' recs) \<and>
        distinct (filter primitive (map fst (byLicense tables))) \<and>
        mset (weight_type (counts ps)) = mset (byWeightType tables) \<and>
        set (map fst (byWeightType tables)) = set (field_keys ''weight_type'' recs) \<and>
        distinct (filter primitive (map fst (byWeightType tables))) \<and>
        mset (release_year (counts ps)) = mset (byReleaseYear tables) \<and>
        set (map fst (byReleaseYear tables)) = set (release_keys recs) \<and>
        distinct (map fst (byReleaseYear tables))"
    if "computeScoreSummary num recs = Inr ps"
  proof -
    from that obtain tables where
      t: "tally_pgs recs
          \<lparr>byGenomeBuild = [], byLicense = [], byWeightType = [], byTrait = [],
           byReleaseYear = [], missingFtp = 0\<rparr> = Inr tables" and
      p: "top_25_traits (counts ps) = take 25 (js_sort by_count_descending (byTrait tables))"
         "genome_build (counts ps) = js_sort by_count_descending (byGenomeBuild tables)"
         "license (counts ps) = js_sort by_count_descending (byLicense tables)"
         "weight_type (counts ps) = js_sort by_count_descending (byWeightType tables)"
         "release_year (counts ps) = js_sort by_count_descending (byReleaseYear tables)"
      by (auto simp: computeScoreSummary_def split: sum.splits)
    from tally_pgs_fold[OF t]
    have f: "byGenomeBuild tables =
               foldl (increment sameValueZero) [] (field_keys ''genome_build'' recs)"
            "byLicense tables = foldl (increment sameValueZero) [] (field_keys ''license'' recs)"
            "byWeightType tables =
               foldl (increment sameValueZero) [] (field_keys ''weight_type'' recs)"
            "byTrait tables =
               foldl (increment sameValueZero) [] (field_keys ''trait_reported'' recs)"
            "byReleaseYear tables = foldl (increment sameValueZero) [] (release_keys recs)"
      by simp_all
    have keys: "fst ` set (foldl (increment sameValueZero) [] ks) = set ks" for ks
      using set_keys_foldl_increment[of sameValueZero "[]" ks, OF sameValueZero_eq] by simp
    have dist: "distinct (filter primitive (map fst (foldl (increment sameValueZero) [] ks)))"
      for ks
      by (rule distinct_primitive_foldl_increment) simp
    have len: "length (js_sort by_count_descending (byTrait tables)) = length (byTrait tables)"
      using mset_js_sort_by_count[of "byTrait tables"] by (metis size_mset)
    have 11: "length (top_25_traits (counts ps)) = min 25 (length (byTrait tables))"
      using len by (simp add: p min.commute)
    have "filter primitive (map fst (byReleaseYear tables)) = map fst (byReleaseYear tables)"
      by (rule filter_all) (use keys[of "release_keys recs"] primitive_release_keys f(5) in auto)
    with dist[of "release_keys recs"] f(5)
    have 12: "distinct (map fst (byReleaseYear tables))" by simp
    have "tally_pgs recs
          \<lparr>byGenomeBuild = [], byLicense = [], byWeightType = [], byTrait = [],
           byReleaseYear = [], missingFtp = 0\<rparr> = Inr tables \<and>
        set (map fst (byTrait tables)) = set (field_keys ''trait_reported'' recs) \<and>
        distinct (filter primitive (map fst (byTrait tables))) \<and>
        top_25_traits (counts ps) = take 25 (js_sort by_count_descending (byTrait tables)) \<and>
        length (top_25_traits (counts ps)) = min 25 (length (byTrait tables)) \<and>
        mset (genome_build (counts ps)) = mset (byGenomeBuild tables) \<and>
        set (map fst (byGenomeBuild tables)) = set (field_keys ''genome_build'' recs) \<and>
        distinct (filter primitive (map fst (byGenomeBuild tables))) \<and>
        mset (license (counts ps)) = mset (byLicense tables) \<and>
        set (map fst (byLicense tables)) = set (field_keys ''license'' recs) \<and>
        distinct (filter primitive (map fst (byLicense tables))) \<and>
        mset (weight_type (counts ps)) = mset (byWeightType tables) \<and>
        set (map fst (byWeightType tables)) = set (field_keys ''weight_type'' recs) \<and>
        distinct (filter primitive (map fst (byWeightType tables))) \<and>
        mset (release_year (counts ps)) = mset (byReleaseYear tables) \<and>
        set (map fst (byReleaseYear tables)) = set (release_keys recs) \<and>
        distinct (map fst (byReleaseYear tables))"
      using t 11 12 by (simp add: p mset_js_sort_by_count) (simp add: f keys dist)
    then show ?thesis by blast
  qed
  from A 6 7 8 9 C show ?thesis by blast
qed

theorem computeSummary_tables_witness:
  "computeSummary \<lparr>convert = (\<lambda>v. Inr NaN), nearest = Num\<rparr>
     [JObj [(''trait_reported'', JStr ''t01''), (''genome_build'', JStr ''GRCh38''), (''date_release'', JStr ''2021-05-01'')],
      JObj [(''trait_reported'', JStr ''t02'')], JObj [(''trait_reported'', JStr ''t03'')],
      JObj [(''trait_reported'', JStr ''t04'')], JObj [(''trait_reported'', JStr ''t05'')],
      JObj [(''trait_reported'', JStr ''t06'')], JObj [(''trait_reported'', JStr ''t07'')],
      JObj [(''trait_reported'', JStr ''t08'')], JObj [(''trait_reported'', JStr ''t09'')],
      JObj [(''trait_reported'', JStr ''t10'')], JObj [(''trait_reported'', JStr ''t11'')],
      JObj [(''trait_reported'', JStr ''t12'')], JObj [(''trait_reported'', JStr ''t13'')],
      JObj [(''trait_reported'', JStr ''t14'')], JObj [(''trait_reported'', JStr ''t15'')],
      JObj [(''trait_reported'', JStr ''t16'')], JObj [(''trait_reported'', JStr ''t17'')],
      JObj [(''trait_reported'', JStr ''t18'')], JObj [(''trait_reported'', JStr ''t19'')],
      JObj [(''trait_reported'', JStr ''t20'')], JObj [(''trait_reported'', JStr ''t21'')],
      JObj [(''trait_reported'', JStr ''t22'')], JObj [(''trait_reported'', JStr ''t23'')],
      JObj [(''trait_reported'', JStr ''t24'')], JObj [(''trait_reported'', JStr ''t25'')],
      JObj [(''trait_reported'', JStr ''t26'')],
      JObj [(''trait_reported'', JStr ''t26''), (''date_release'', JStr ''2021-06-30'')]] =
     Inr \<lparr>totalScores = 27, uniqueTraits = 26,
          variants = \<lparr>min_variants = Null, max_variants = Null, mean = Null, median = Null\<rparr>,
          topTraits =
            [(JStr ''t26'', 2), (JStr ''t01'', 1), (JStr ''t02'', 1), (JStr ''t03'', 1),
             (JStr ''t04'', 1), (JStr ''t05'', 1), (JStr ''t06'', 1), (JStr ''t07'', 1),
             (JStr ''t08'', 1), (JStr ''t09'', 1)],
          releaseYears = [(''2021'', 2)]\<rparr> \<and>
   tally
     [JObj [(''trait_reported'', JStr ''t01''), (''genome_build'', JStr ''GRCh38''), (''date_release'', JStr ''2021-05-01'')],
      JObj [(''trait_reported'', JStr ''t02'')], JObj [(''trait_reported'', JStr ''t03'')],
      JObj [(''trait_reported'', JStr ''t04'')], JObj [(''trait_reported'', JStr ''t05'')],
      JObj [(''trait_reported'', JStr ''t06'')], JObj [(''trait_reported'', JStr ''t07'')],
      JObj [(''trait_reported'', JStr ''t08'')], JObj [(''trait_reported'', JStr ''t09'')],
      JObj [(''trait_reported'', JStr ''t10'')], JObj [(''trait_reported'', JStr ''t11'')],
      JObj [(''trait_reported'', JStr ''t12'')], JObj [(''trait_reported'', JStr ''t13'')],
      JObj [(''trait_reported'', JStr ''t14'')], JObj [(''trait_reported'', JStr ''t15'')],
      JObj [(''trait_reported'', JStr ''t16'')], JObj [(''trait_reported'', JStr ''t17'')],
      JObj [(''trait_reported'', JStr ''t18'')], JObj [(''trait_reported'', JStr ''t19'')],
      JObj [(''trait_reported'', JStr ''t20'')], JObj [(''trait_reported'', JStr ''t21'')],
      JObj [(''trait_reported'', JStr ''t22'')], JObj [(''trait_reported'', JStr ''t23'')],
      JObj [(''trait_reported'', JStr ''t24'')], JObj [(''trait_reported'', JStr ''t25'')],
      JObj [(''trait_reported'', JStr ''t26'')],
      JObj [(''trait_reported'', JStr ''t26''), (''date_release'', JStr ''2021-06-30'')]]
     ([], []) =
     Inr ([(JStr ''t01'', 1), (JStr ''t02'', 1), (JStr ''t03'', 1), (JStr ''t04'', 1),
          (JStr ''t05'', 1), (JStr ''t06'', 1), (JStr ''t07'', 1), (JStr ''t08'', 1),
          (JStr ''t09'', 1), (JStr ''t10'', 1), (JStr ''t11'', 1), (JStr ''t12'', 1),
          (JStr ''t13'', 1), (JStr ''t14'', 1), (JStr ''t15'', 1), (JStr ''t16'', 1),
          (JStr ''t17'', 1), (JStr ''t18'', 1), (JStr ''t19'', 1), (JStr ''t20'', 1),
          (JStr ''t21'', 1), (JStr ''t22'', 1), (JStr ''t23'', 1), (JStr ''t24'', 1),
          (JStr ''t25'', 1), (JStr ''t26'', 2)],
          [(''2021'', 2)]) \<and>
   computeScoreSummary \<lparr>convert = (\<lambda>v. Inr NaN), nearest = Num\<rparr>
     [JObj [(''trait_reported'', JStr ''t01''), (''genome_build'', JStr ''GRCh38''), (''date_release'', JStr ''2021-05-01'')],
      JObj [(''trait_reported'', JStr ''t02'')], JObj [(''trait_reported'', JStr ''t03'')],
      JObj [(''trait_reported'', JStr ''t04'')], JObj [(''trait_reported'', JStr ''t05'')],
      JObj [(''trait_reported'', JStr ''t06'')], JObj [(''trait_reported'', JStr ''t07'')],
      JObj [(''trait_reported'', JStr ''t08'')], JObj [(''trait_reported'', JStr ''t09'')],
      JObj [(''trait_reported'', JStr ''t10'')], JObj [(''trait_reported'', JStr ''t11'')],
      JObj [(''trait_reported'', JStr ''t12'')], JObj [(''trait_reported'', JStr ''t13'')],
      JObj [(''trait_reported'', JStr ''t14'')], JObj [(''trait_reported'', JStr ''t15'')],
      JObj [(''trait_reported'', JStr ''t16'')], JObj [(''trait_reported'', JStr ''t17'')],
      JObj [(''trait_reported'', JStr ''t18'')], JObj [(''trait_reported'', JStr ''t19'')],
      JObj [(''trait_reported'', JStr ''t20'')], JObj [(''trait_reported'', JStr ''t21'')],
      JObj [(''trait_reported'', JStr ''t22'')], JObj [(''trait_reported'', JStr ''t23'')],
      JObj [(''trait_reported'', JStr ''t24'')], JObj [(''trait_reported'', JStr ''t25'')],
      JObj [(''trait_reported'', JStr ''t26'')],
      JObj [(''trait_reported'', JStr ''t26''), (''date_release'', JStr ''2021-06-30'')]] =
     Inr \<lparr>total_scores = 27,
          variants_number =
            \<lparr>min_variants = Null, max_variants = Null, mean = Null, median = Null,
             n_with_value = 0, p95 = Null\<rparr>,
          missing_ftp_scoring_file = 27,
          counts =
            \<lparr>genome_build = [(JStr ''NR'', 26), (JStr ''GRCh38'', 1)],
             license = [(JStr ''NR'', 27)], weight_type = [(JStr ''NR'', 27)],
             release_year = [(JStr ''2021'', 2)],
             top_25_traits =
               [(JStr ''t26'', 2), (JStr ''t01'', 1), (JStr ''t02'', 1),
                (JStr ''t03'', 1), (JStr ''t04'', 1), (JStr ''t05'', 1),
                (JStr ''t06'', 1), (JStr ''t07'', 1), (JStr ''t08'', 1),
                (JStr ''t09'', 1), (JStr ''t10'', 1), (JStr ''t11'', 1),
                (JStr ''t12'', 1), (JStr ''t13'', 1), (JStr ''t14'', 1),
                (JStr ''t15'', 1), (JStr ''t16'', 1), (JStr ''t17'', 1),
                (JStr ''t18'', 1), (JStr ''t19'', 1), (JStr ''t20'', 1),
                (JStr ''t21'', 1), (JStr ''t22'', 1), (JStr ''t23'', 1),
                (JStr ''t24'', 1)]\<rparr>\<rparr> \<and>
   tally_pgs
     [JObj [(''trait_reported'', JStr ''t01''), (''genome_build'', JStr ''GRCh38''), (''date_release'', JStr ''2021-05-01'')],
      JObj [(''trait_reported'', JStr ''t02'')], JObj [(''trait_reported'', JStr ''t03'')],
      JObj [(''trait_reported'', JStr ''t04'')], JObj [(''trait_reported'', JStr ''t05'')],
      JObj [(''trait_reported'', JStr ''t06'')], JObj [(''trait_reported'', JStr ''t07'')],
      JObj [(''trait_reported'', JStr ''t08'')], JObj [(''trait_reported'', JStr ''t09'')],
      JObj [(''trait_reported'', JStr ''t10'')], JObj [(''trait_reported'', JStr ''t11'')],
      JObj [(''trait_reported'', JStr ''t12'')], JObj [(''trait_reported'', JStr ''t13'')],
      JObj [(''trait_reported'', JStr ''t14'')], JObj [(''trait_reported'', JStr ''t15'')],
      JObj [(''trait_reported'', JStr ''t16'')], JObj [(''trait_reported'', JStr ''t17'')],
      JObj [(''trait_reported'', JStr ''t18'')], JObj [(''trait_reported'', JStr ''t19'')],
      JObj [(''trait_reported'', JStr ''t20'')], JObj [(''trait_reported'', JStr ''t21'')],
      JObj [(''trait_reported'', JStr ''t22'')], JObj [(''trait_reported'', JStr ''t23'')],
      JObj [(''trait_reported'', JStr ''t24'')], JObj [(''trait_reported'', JStr ''t25'')],
      JObj [(''trait_reported'', JStr ''t26'')],
      JObj [(''trait_reported'', JStr ''t26''), (''date_release'', JStr ''2021-06-30'')]]
     \<lparr>byGenomeBuild = [], byLicense = [], byWeightType = [], byTrait = [],
      byReleaseYear = [], missingFtp = 0\<rparr> =
     Inr \<lparr>byGenomeBuild = [(JStr ''GRCh38'', 1), (JStr ''NR'', 26)],
          byLicense = [(JStr ''NR'', 27)], byWeightType = [(JStr ''NR'', 27)],
          byTrait =
            [(JStr ''t01'', 1), (JStr ''t02'', 1), (JStr ''t03'', 1), (JStr ''t04'', 1),
             (JStr ''t05'', 1), (JStr ''t06'', 1), (JStr ''t07'', 1), (JStr ''t08'', 1),
             (JStr ''t09'', 1), (JStr ''t10'', 1), (JStr ''t11'', 1), (JStr ''t12'', 1),
             (JStr ''t13'', 1), (JStr ''t14'', 1), (JStr ''t15'', 1), (JStr ''t16'', 1),
             (JStr ''t17'', 1), (JStr ''t18'', 1), (JStr ''t19'', 1), (JStr ''t20'', 1),
             (JStr ''t21'', 1), (JStr ''t22'', 1), (JStr ''t23'', 1), (JStr ''t24'', 1),
             (JStr ''t25'', 1), (JStr ''t26'', 2)],
          byReleaseYear = [(JStr ''2021'', 2)], missingFtp = 27\<rparr>"
proof -
  let ?recs = "[JObj [(''trait_reported'', JStr ''t01''), (''genome_build'', JStr ''GRCh38''), (''date_release'', JStr ''2021-05-01'')],
      JObj [(''trait_reported'', JStr ''t02'')], JObj [(''trait_reported'', JStr ''t03'')],
      JObj [(''trait_reported'', JStr ''t04'')], JObj [(''trait_reported'', JStr ''t05'')],
      JObj [(''trait_reported'', JStr ''t06'')], JObj [(''trait_reported'', JStr ''t07'')],
      JObj [(''trait_reported'', JStr ''t08'')], JObj [(''trait_reported'', JStr ''t09'')],
      JObj [(''trait_reported'', JStr ''t10'')], JObj [(''trait_reported'', JStr ''t11'')],
      JObj [(''trait_reported'', JStr ''t12'')], JObj [(''trait_reported'', JStr ''t13'')],
      JObj [(''trait_reported'', JStr ''t14'')], JObj [(''trait_reported'', JStr ''t15'')],
      JObj [(''trait_reported'', JStr ''t16'')], JObj [(''trait_reported'', JStr ''t17'')],
      JObj [(''trait_reported'', JStr ''t18'')], JObj [(''trait_reported'', JStr ''t19'')],
      JObj [(''trait_reported'', JStr ''t20'')], JObj [(''trait_reported'', JStr ''t21'')],
      JObj [(''trait_reported'', JStr ''t22'')], JObj [(''trait_reported'', JStr ''t23'')],
      JObj [(''trait_reported'', JStr ''t24'')], JObj [(''trait_reported'', JStr ''t25'')],
      JObj [(''trait_reported'', JStr ''t26'')],
      JObj [(''trait_reported'', JStr ''t26''), (''date_release'', JStr ''2021-06-30'')]]"
  have t: "tally ?recs ([], []) =
     Inr ([(JStr ''t01'', 1), (JStr ''t02'', 1), (JStr ''t03'', 1), (JStr ''t04'', 1),
          (JStr ''t05'', 1), (JStr ''t06'', 1), (JStr ''t07'', 1), (JStr ''t08'', 1),
          (JStr ''t09'', 1), (JStr ''t10'', 1), (JStr ''t11'', 1), (JStr ''t12'', 1),
          (JStr ''t13'', 1), (JStr ''t14'', 1), (JStr ''t15'', 1), (JStr ''t16'', 1),
          (JStr ''t17'', 1), (JStr ''t18'', 1), (JStr ''t19'', 1), (JStr ''t20'', 1),
          (JStr ''t21'', 1), (JStr ''t22'', 1), (JStr ''t23'', 1), (JStr ''t24'', 1),
          (JStr ''t25'', 1), (JStr ''t26'', 2)],
          [(''2021'', 2)])"
    by (simp add: trait_of_def year_of_def match_year_def is_digit_def increment_def
        sameValueZero_def)
  have cs: "computeSummary \<lparr>convert = (\<lambda>v. Inr NaN), nearest = Num\<rparr> ?recs =
     Inr \<lparr>totalScores = 27, uniqueTraits = 26,
          variants = \<lparr>min_variants = Null, max_variants = Null, mean = Null, median = Null\<rparr>,
          topTraits =
            [(JStr ''t26'', 2), (JStr ''t01'', 1), (JStr ''t02'', 1), (JStr ''t03'', 1),
             (JStr ''t04'', 1), (JStr ''t05'', 1), (JStr ''t06'', 1), (JStr ''t07'', 1),
             (JStr ''t08'', 1), (JStr ''t09'', 1)],
          releaseYears = [(''2021'', 2)]\<rparr>"
    unfolding computeSummary_def t
    by (simp add: sorted_variants_def js_sort_def or_null_def at_index_def quantile_def
        by_count_descending_def by_year_ascending_def)
  have tp: "tally_pgs ?recs
     \<lparr>byGenomeBuild = [], byLicense = [], byWeightType = [], byTrait = [],
      byReleaseYear = [], missingFtp = 0\<rparr> =
     Inr \<lparr>byGenomeBuild = [(JStr ''GRCh38'', 1), (JStr ''NR'', 26)],
          byLicense = [(JStr ''NR'', 27)], byWeightType = [(JStr ''NR'', 27)],
          byTrait =
            [(JStr ''t01'', 1), (JStr ''t02'', 1), (JStr ''t03'', 1), (JStr ''t04'', 1),
             (JStr ''t05'', 1), (JStr ''t06'', 1), (JStr ''t07'', 1), (JStr ''t08'', 1),
             (JStr ''t09'', 1), (JStr ''t10'', 1), (JStr ''t11'', 1), (JStr ''t12'', 1),
             (JStr ''t13'', 1), (JStr ''t14'', 1), (JStr ''t15'', 1), (JStr ''t16'', 1),
             (JStr ''t17'', 1), (JStr ''t18'', 1), (JStr ''t19'', 1), (JStr ''t20'', 1),
             (JStr ''t21'', 1), (JStr ''t22'', 1), (JStr ''t23'', 1), (JStr ''t24'', 1),
             (JStr ''t25'', 1), (JStr ''t26'', 2)],
          byReleaseYear = [(JStr ''2021'', 2)], missingFtp = 27\<rparr>"
    by (simp add: inc_def key_or_NR_def increment_def sameValueZero_def parseYear_def
        match_year_def is_digit_def number_of_digits_def digit_value_def
        number_to_string_2021)
  have ps: "computeScoreSummary \<lparr>convert = (\<lambda>v. Inr NaN), nearest = Num\<rparr> ?recs =
     Inr \<lparr>total_scores = 27,
          variants_number =
            \<lparr>min_variants = Null, max_variants = Null, mean = Null, median = Null,
             n_with_value = 0, p95 = Null\<rparr>,
          missing_ftp_scoring_file = 27,
          counts =
            \<lparr>genome_build = [(JStr ''NR'', 26), (JStr ''GRCh38'', 1)],
             license = [(JStr ''NR'', 27)], weight_type = [(JStr ''NR'', 27)],
             release_year = [(JStr ''2021'', 2)],
             top_25_traits =
               [(JStr ''t26'', 2), (JStr ''t01'', 1), (JStr ''t02'', 1),
                (JStr ''t03'', 1), (JStr ''t04'', 1), (JStr ''t05'', 1),
                (JStr ''t06'', 1), (JStr ''t07'', 1), (JStr ''t08'', 1),
                (JStr ''t09'', 1), (JStr ''t10'', 1), (JStr ''t11'', 1),
                (JStr ''t12'', 1), (JStr ''t13'', 1), (JStr ''t14'', 1),
                (JStr ''t15'', 1), (JStr ''t16'', 1), (JStr ''t17'', 1),
                (JStr ''t18'', 1), (JStr ''t19'', 1), (JStr ''t20'', 1),
                (JStr ''t21'', 1), (JStr ''t22'', 1), (JStr ''t23'', 1),
                (JStr ''t24'', 1)]\<rparr>\<rparr>"
    unfolding computeScoreSummary_def tp
    by (simp add: sorted_variants_def js_sort_def or_null_def at_index_def quantile_def
        by_count_descending_def)
  note tables = computeSummary_tables[of "\<lparr>convert = (\<lambda>v. Inr NaN), nearest = Num\<rparr>" ?recs _ "[]"]
  from tables[THEN conjunct1, THEN mp, OF cs] tables[THEN conjunct2, THEN conjunct2,
      THEN conjunct2, THEN conjunct2, THEN conjunct2, THEN mp, OF ps]
  have "(\<exists>traitTable yearTable. tally ?recs ([], []) = Inr (traitTable, yearTable)) \<and>
        (\<exists>tables. tally_pgs ?recs
           \<lparr>byGenomeBuild = [], byLicense = [], byWeightType = [], byTrait = [],
            byReleaseYear = [], missingFtp = 0\<rparr> = Inr tables)"
    by blast
  with cs t ps tp show ?thesis by - (intro conjI; assumption)
qed

text \<open>
  Claim C4 as the specification states it fails for the summary of the scores.  Eleven
  scores with eleven different reported traits give a summary that reports eleven unique
  traits and whose table \<open>topTraits\<close> has ten entries: the trait of the eleventh score
  has none.
\<close>

theorem computeSummary_cuts_top_traits:
  "computeSummary \<lparr>convert = (\<lambda>v. Inr NaN), nearest = Num\<rparr>
     [JObj [(''trait_reported'', JStr ''t01'')], JObj [(''trait_reported'', JStr ''t02'')],
      JObj [(''trait_reported'', JStr ''t03'')], JObj [(''trait_reported'', JStr ''t04'')],
      JObj [(''trait_reported'', JStr ''t05'')], JObj [(''trait_reported'', JStr ''t06'')],
      JObj [(''trait_reported'', JStr ''t07'')], JObj [(''trait_reported'', JStr ''t08'')],
      JObj [(''trait_reported'', JStr ''t09'')], JObj [(''trait_reported'', JStr ''t10'')],
      JObj [(''trait_reported'', JStr ''t11'')]] =
     Inr \<lparr>totalScores = 11, uniqueTraits = 11,
          variants = \<lparr>min_variants = Null, max_variants = Null, mean = Null, median = Null\<rparr>,
          topTraits =
            [(JStr ''t01'', 1), (JStr ''t02'', 1), (JStr ''t03'', 1), (JStr ''t04'', 1),
             (JStr ''t05'', 1), (JStr ''t06'', 1), (JStr ''t07'', 1), (JStr ''t08'', 1),
             (JStr ''t09'', 1), (JStr ''t10'', 1)],
          releaseYears = []\<rparr>"
  by (simp add: computeSummary_def sorted_variants_def js_sort_def trait_of_def year_of_def
      match_year_def increment_def sameValueZero_def by_count_descending_def or_null_def
      at_index_def quantile_def)

text \<open>
  Claim C5, as amended.  In every summary the aggregators produce, the table of reported
  traits and the table of trait categories are sorted descending by count; the table of
  release years is sorted ascending by the year, not by count.
\<close>

theorem summary_tables_sorted:
  "computeSummary num recs = Inr s \<Longrightarrow>
   sorted_wrt (\<lambda>a b. snd b \<le> snd a) (topTraits s) \<and>
   sorted_wrt (\<lambda>a b. number_of_digits (fst a) \<le> number_of_digits (fst b)) (releaseYears s) \<and>
   sorted_wrt (\<lambda>a b. snd b \<le> snd a) (categories (computeSummary_traits ts))"
proof -
  assume "computeSummary num recs = Inr s"
  then obtain traitTable yearTable where
    "topTraits s = take 10 (js_sort by_count_descending traitTable)"
    "releaseYears s = js_sort by_year_ascending yearTable"
    by (auto simp: computeSummary_def split: sum.splits prod.splits)
  then show ?thesis
    by (simp add: sorted_wrt_take sorted_by_count_descending sorted_by_year_ascending
        computeSummary_traits_def Let_def)
qed

theorem summary_tables_sorted_witness:
  "sorted_wrt (\<lambda>a b. snd b \<le> snd a) [(JStr ''b'', 2::nat), (JStr ''a'', 1)] \<and>
   sorted_wrt (\<lambda>a b. number_of_digits (fst a) \<le> number_of_digits (fst b))
     [(''2020'', 1::nat), (''2021'', 2)] \<and>
   sorted_wrt (\<lambda>a b. snd b \<le> snd a)
     (categories (computeSummary_traits [JObj [(''trait_categories'', JArr [JStr ''c''])]]))"
proof -
  have cs: "computeSummary \<lparr>convert = (\<lambda>v. Inr NaN), nearest = Num\<rparr>
     [JObj [(''trait_reported'', JStr ''a''), (''date_release'', JStr ''2020'')],
      JObj [(''trait_reported'', JStr ''b''), (''date_release'', JStr ''2021'')],
      JObj [(''trait_reported'', JStr ''b''), (''date_release'', JStr ''2021'')]] =
     Inr \<lparr>totalScores = 3, uniqueTraits = 2,
          variants = \<lparr>min_variants = Null, max_variants = Null, mean = Null, median = Null\<rparr>,
          topTraits = [(JStr ''b'', 2), (JStr ''a'', 1)],
          releaseYears = [(''2020'', 1), (''2021'', 2)]\<rparr>"
    by (simp add: computeSummary_def sorted_variants_def js_sort_def trait_of_def year_of_def
        match_year_def is_digit_def increment_def sameValueZero_def by_count_descending_def
        by_year_ascending_def number_of_digits_def digit_value_def or_null_def at_index_def
        quantile_def)
  from summary_tables_sorted[OF cs, of "[JObj [(''trait_categories'', JArr [JStr ''c''])]]"]
  show ?thesis by simp
qed

text \<open>
  Claim C5 as the specification states it fails for the table of release years.  One
  score released in 2020 and two released in 2021 give the table 2020 (count 1), 2021
  (count 2), which is in the order of the years and not descending by count.
\<close>

theorem releaseYears_not_by_count:
  "computeSummary \<lparr>convert = (\<lambda>v. Inr NaN), nearest = Num\<rparr>
     [JObj [(''date_release'', JStr ''2020'')], JObj [(''date_release'', JStr ''2021'')],
      JObj [(''date_release'', JStr ''2021'')]] =
     Inr \<lparr>totalScores = 3, uniqueTraits = 1,
          variants = \<lparr>min_variants = Null, max_variants = Null, mean = Null, median = Null\<rparr>,
          topTraits = [(JStr ''NR'', 3)],
          releaseYears = [(''2020'', 1), (''2021'', 2)]\<rparr> \<and>
   \<not> sorted_wrt (\<lambda>a b. snd b \<le> snd a) [(''2020'', 1::nat), (''2021'', 2)]"
  by (simp add: computeSummary_def sorted_variants_def js_sort_def trait_of_def year_of_def
      match_year_def is_digit_def increment_def sameValueZero_def by_count_descending_def
      by_year_ascending_def number_of_digits_def digit_value_def or_null_def at_index_def
      quantile_def)






text \<open>
  The median of a collection that is not empty need not be a number.  With a rounding
  that overflows beyond 2 to the power 1024, the difference of the last two of the
  three values below is an infinity, the remainder of the position is zero, and their
  product is \<open>NaN\<close>.
\<close>

lemma quantile_overflow:
  "quantile
     \<lparr>convert = (\<lambda>v. Inr NaN),
      nearest = (\<lambda>r. if \<bar>r\<bar> < 2 ^ 1024 then Num r else if 0 < r then PosInf else NegInf)\<rparr>
     [- (2 ^ 1000), - (2 ^ 1000), 2 ^ 1024 - 2 ^ 971] (Num (1 / 2)) = Value NaN"
  by (simp add: quantile_def fmul_def fadd_def fsub_def fneg_def ffloor_def fsign_def
      at_number_def at_index_def)




text \<open>
  Claim C8, as amended.  A score whose \<open>trait_reported\<close> is present and is not \<open>null\<close>
  is counted under that very value, also when the value is falsy (the empty string, 0,
  \<open>false\<close>); a score whose \<open>trait_reported\<close> is missing or is \<open>null\<close> is counted under
  \<open>"NR"\<close>.  A trait whose \<open>trait_categories\<close> is an array that is not empty is counted
  once under each of its elements, falsy or not; a trait whose \<open>trait_categories\<close> is
  missing, is not an array or is an empty array is counted once under \<open>"NR"\<close>.  The count
  a table holds for a primitive key is the number of times the records give that key.
\<close>

theorem literal_category_keys:
  "(member score ''trait_reported'' = Inr (Some v) \<and> v \<noteq> JNull \<longrightarrow>
      trait_of score = Inr v) \<and>
   (member score ''trait_reported'' = Inr None \<or>
    member score ''trait_reported'' = Inr (Some JNull) \<longrightarrow>
      trait_of score = Inr (JStr ''NR'')) \<and>
   (tally recs ([], []) = Inr (traitTable, yearTable) \<and> primitive k \<longrightarrow>
      map_get sameValueZero traitTable k =
        (let n = length (filter (\<lambda>r. trait_of r = Inr k) recs)
         in if n = 0 then None else Some n)) \<and>
   (member trait ''trait_categories'' = Inr (Some (JArr cs)) \<and> cs \<noteq> [] \<longrightarrow>
      categories_of trait = cs) \<and>
   ((\<forall>cs. member trait ''trait_categories'' = Inr (Some (JArr cs)) \<longrightarrow> cs = []) \<longrightarrow>
      categories_of trait = [JStr ''NR'']) \<and>
   (primitive k \<longrightarrow>
      (\<forall>n. (k, n) \<in> set (categories (computeSummary_traits ts)) \<longleftrightarrow>
         n = length (filter (\<lambda>c. c = k) (concat (map categories_of ts))) \<and> 0 < n))"
proof -
  have 1: "member score ''trait_reported'' = Inr (Some v) \<and> v \<noteq> JNull \<longrightarrow>
      trait_of score = Inr v"
    by (cases v) (auto simp: trait_of_def)
  have 2: "member score ''trait_reported'' = Inr None \<or>
    member score ''trait_reported'' = Inr (Some JNull) \<longrightarrow>
      trait_of score = Inr (JStr ''NR'')"
    by (auto simp: trait_of_def)
  have 3: "tally recs ([], []) = Inr (traitTable, yearTable) \<and> primitive k \<longrightarrow>
      map_get sameValueZero traitTable k =
        (let n = length (filter (\<lambda>r. trait_of r = Inr k) recs)
         in if n = 0 then None else Some n)"
  proof
    assume a: "tally recs ([], []) = Inr (traitTable, yearTable) \<and> primitive k"
    then have "traitTable = foldl (increment sameValueZero) [] (keys_of recs)"
      using tally_fold[of recs "[]" "[]" traitTable yearTable] by simp
    then show "map_get sameValueZero traitTable k =
        (let n = length (filter (\<lambda>r. trait_of r = Inr k) recs)
         in if n = 0 then None else Some n)"
      using a map_get_count[of k "keys_of recs"] by (simp add: count_keys_of)
  qed
  have 4: "member trait ''trait_categories'' = Inr (Some (JArr cs)) \<and> cs \<noteq> [] \<longrightarrow>
      categories_of trait = cs"
    by (cases trait) (auto simp: categories_of_def)
  have 5: "(\<forall>cs. member trait ''trait_categories'' = Inr (Some (JArr cs)) \<longrightarrow> cs = []) \<longrightarrow>
      categories_of trait = [JStr ''NR'']"
    by (cases trait) (auto simp: categories_of_def split: sum.splits option.splits json.splits)
  have 6: "primitive k \<longrightarrow>
      (\<forall>n. (k, n) \<in> set (categories (computeSummary_traits ts)) \<longleftrightarrow>
         n = length (filter (\<lambda>c. c = k) (concat (map categories_of ts))) \<and> 0 < n)"
  proof (intro impI allI)
    fix n
    assume k: "primitive k"
    let ?table = "tally_categories ts []"
    have d: "distinct (filter primitive (map fst ?table))"
      unfolding tally_categories_fold by (rule distinct_primitive_foldl_increment) simp
    have "set (categories (computeSummary_traits ts)) = set ?table"
      using mset_js_sort_by_count[of ?table]
      by (simp add: computeSummary_traits_def Let_def) (metis set_mset_mset)
    then have "(k, n) \<in> set (categories (computeSummary_traits ts)) \<longleftrightarrow>
        map_get sameValueZero ?table k = Some n"
      using map_get_mem[OF d k, of n] by simp
    also have "\<dots> \<longleftrightarrow>
        n = length (filter (\<lambda>c. c = k) (concat (map categories_of ts))) \<and> 0 < n"
      unfolding tally_categories_fold using map_get_count[OF k, of "concat (map categories_of ts)"]
      by (auto simp: Let_def)
    finally show "(k, n) \<in> set (categories (computeSummary_traits ts)) \<longleftrightarrow>
        n = length (filter (\<lambda>c. c = k) (concat (map categories_of ts))) \<and> 0 < n" .
  qed
  from 1 2 3 4 5 6 show ?thesis by blast
qed

theorem literal_category_keys_witness:
  "trait_of (JObj [(''trait_reported'', JStr [])]) = Inr (JStr []) \<and>
   trait_of (JObj [(''trait_reported'', JNull)]) = Inr (JStr ''NR'') \<and>
   tally [JObj [(''trait_reported'', JStr [])], JObj [(''trait_reported'', JStr [])]] ([], []) =
     Inr ([(JStr [], 2)], []) \<and>
   map_get sameValueZero [(JStr [], 2)] (JStr []) = Some 2 \<and>
   categories_of (JObj [(''trait_categories'', JArr [JStr [], JBool False])]) =
     [JStr [], JBool False] \<and>
   categories_of (JObj [(''trait_categories'', JStr ''x'')]) = [JStr ''NR''] \<and>
   (JStr [], 1) \<in> set (categories (computeSummary_traits
      [JObj [(''trait_categories'', JArr [JStr [], JBool False])]]))"
proof -
  have t: "tally [JObj [(''trait_reported'', JStr [])], JObj [(''trait_reported'', JStr [])]]
      ([], []) = Inr ([(JStr [], 2)], [])"
    by (simp add: trait_of_def year_of_def match_year_def increment_def sameValueZero_def)
  have c: "categories_of (JObj [(''trait_categories'', JArr [JStr [], JBool False])]) =
      [JStr [], JBool False]"
    by (simp add: categories_of_def)
  from literal_category_keys[of "JObj [(''trait_reported'', JStr [])]" "JStr []"
      "[JObj [(''trait_reported'', JStr [])], JObj [(''trait_reported'', JStr [])]]"
      "[(JStr [], 2)]" "[]" "JStr []" "JObj [(''trait_categories'', JStr ''x'')]" "[]"
      "[JObj [(''trait_categories'', JArr [JStr [], JBool False])]]"] t c
  show ?thesis
    by (simp add: trait_of_def sameValueZero_def categories_of_def)
qed

text \<open>
  Claim C8 as the specification states it fails.  A trait whose \<open>trait_categories\<close> is
  present and is the empty array is counted under \<open>"NR"\<close>, and so is a score whose
  \<open>trait_reported\<close> is present and is \<open>null\<close>.
\<close>

theorem present_but_counted_as_NR:
  "computeSummary_traits [JObj [(''trait_categories'', JArr [])]] =
     \<lparr>traits = [JObj [(''trait_categories'', JArr [])]], totaltraits = 1, totalCategories = 1,
      categories = [(JStr ''NR'', 1)]\<rparr> \<and>
   tally [JObj [(''trait_reported'', JNull)]] ([], []) = Inr ([(JStr ''NR'', 1)], [])"
  by (simp add: computeSummary_traits_def categories_of_def increment_def js_sort_def
      trait_of_def year_of_def match_year_def)

section \<open>Properties of the calendar\<close>

lemma div_bounds: "(0::int) < n \<Longrightarrow> n * (x div n) \<le> x \<and> x < n * (x div n) + n"
proof
  assume n: "0 < n"
  show "n * (x div n) \<le> x"
    using mult_div_mod_eq[of n x] pos_mod_sign[OF n, of x] by linarith
  show "x < n * (x div n) + n"
    using mult_div_mod_eq[of n x] pos_mod_bound[OF n, of x] by linarith
qed

text \<open>The first day of a year after the epoch, and before it.\<close>

lemma DayFromYear_after: "0 \<le> k \<Longrightarrow> DayFromYear (1970 + k) \<le> 366 * k"
proof -
  assume k: "0 \<le> k"
  define a b c where "a = (k + 1) div 4" and "b = (k + 69) div 100" and "c = (k + 369) div 400"
  have eq: "DayFromYear (1970 + k) = 365 * k + a - b + c"
    by (simp add: DayFromYear_def a_def b_def c_def algebra_simps)
  have 1: "4 * a \<le> k + 1" "k + 69 < 100 * b + 100" "400 * c \<le> k + 369"
    unfolding a_def b_def c_def using div_bounds[of 4 "k + 1"] div_bounds[of 100 "k + 69"]
      div_bounds[of 400 "k + 369"] by simp_all
  consider "k = 0" | "k = 1" | "2 \<le> k" using k by linarith
  then show ?thesis
  proof cases
    case 3 then show ?thesis using 1 unfolding eq by linarith
  qed (simp_all add: DayFromYear_def)
qed

lemma DayFromYear_before: "k \<le> 0 \<Longrightarrow> DayFromYear (1970 + k) \<le> 365 * k"
proof -
  assume k: "k \<le> 0"
  define a b c where "a = (k + 1) div 4" and "b = (k + 69) div 100" and "c = (k + 369) div 400"
  have eq: "DayFromYear (1970 + k) = 365 * k + a - b + c"
    by (simp add: DayFromYear_def a_def b_def c_def algebra_simps)
  have 1: "4 * a \<le> k + 1" "k + 69 < 100 * b + 100" "400 * c \<le> k + 369"
    unfolding a_def b_def c_def using div_bounds[of 4 "k + 1"] div_bounds[of 100 "k + 69"]
      div_bounds[of 400 "k + 369"] by simp_all
  consider "k = 0" | "k = -1" | "k = -2" | "k = -3" | "k = -4" | "k = -5" | "k = -6" | "k \<le> -7"
    using k by linarith
  then show ?thesis
  proof cases
    case 8 then show ?thesis using 1 unfolding eq by linarith
  qed (simp_all add: DayFromYear_def)
qed

lemma DayFromYear_add: "DayFromYear y + 364 * int n \<le> DayFromYear (y + int n)"
proof (induction n)
  case 0
  show ?case by simp
next
  case (Suc n)
  have "DayFromYear (y + int n) + 364 \<le> DayFromYear (y + int n + 1)"
    using DayFromYear_step[of "y + int n"] by simp
  with Suc show ?case by (simp add: algebra_simps)
qed

lemma DayFromYear_strict: "y < y' \<Longrightarrow> DayFromYear y < DayFromYear y'"
proof -
  assume "y < y'"
  then obtain n where n: "y' = y + int n" "0 < n"
    by (metis zless_iff_Suc_zadd zero_less_Suc)
  from DayFromYear_add[of y n] n show ?thesis by simp
qed

lemma DayFromYear_mono: "y \<le> y' \<Longrightarrow> DayFromYear y \<le> DayFromYear y'"
  using DayFromYear_strict[of y y'] by (cases "y = y'") auto

text \<open>The search finds the year of the day: the day lies in the year found.\<close>

lemma year_search_bounds:
  "DayFromYear y \<le> d \<Longrightarrow>
   DayFromYear (year_search d y) \<le> d \<and> d < DayFromYear (year_search d y + 1)"
proof (induction d y rule: year_search.induct)
  case (1 d y)
  show ?case
  proof (cases "DayFromYear (y + 1) \<le> d")
    case True
    with "1.IH" show ?thesis by (subst (1 2) year_search.simps) simp
  next
    case False
    with "1.prems" show ?thesis by (subst (1 2) year_search.simps) simp
  qed
qed

lemma YearFromDay_bounds:
  "DayFromYear (YearFromDay d) \<le> d \<and> d < DayFromYear (YearFromDay d + 1)"
proof -
  have "DayFromYear (1970 + (if 0 \<le> d then d div 366 else d div 365)) \<le> d"
  proof (cases "0 \<le> d")
    case True
    then have "0 \<le> d div 366" by simp
    from DayFromYear_after[OF this] div_bounds[of 366 d] True show ?thesis by simp
  next
    case False
    then have "d div 365 \<le> 0" by (intro div_nonpos_pos_le0) simp_all
    from DayFromYear_before[OF this] div_bounds[of 365 d] False show ?thesis by simp
  qed
  then show ?thesis unfolding YearFromDay_def by (rule year_search_bounds)
qed

lemma YearFromDay_unique:
  assumes "DayFromYear y \<le> d" and "d < DayFromYear (y + 1)"
  shows "YearFromDay d = y"
proof (rule ccontr)
  assume ne: "YearFromDay d \<noteq> y"
  show False
  proof (cases "YearFromDay d < y")
    case True
    then have "DayFromYear (YearFromDay d + 1) \<le> DayFromYear y"
      by (intro DayFromYear_mono) simp
    with assms(1) YearFromDay_bounds[of d] show False by simp
  next
    case False
    with ne have "DayFromYear (y + 1) \<le> DayFromYear (YearFromDay d)"
      by (intro DayFromYear_mono) simp
    with assms(2) YearFromDay_bounds[of d] show False by simp
  qed
qed

text \<open>The length of a year is the distance between its first day and the next one's.\<close>

lemma div_succ:
  "(0::int) < n \<Longrightarrow> (x + 1) div n = x div n + (if (x + 1) mod n = 0 then 1 else 0)"
proof -
  assume n: "0 < n"
  have x: "x = n * (x div n) + x mod n" by simp
  have r: "0 \<le> x mod n" "x mod n < n" using n by simp_all
  show ?thesis
  proof (cases "x mod n = n - 1")
    case True
    have "x + 1 = n * (x div n + 1) + 0" using x True by (simp add: algebra_simps)
    from int_div_pos_eq[OF this _ n] int_mod_pos_eq[OF this _ n] show ?thesis by simp
  next
    case False
    with r have lt: "x mod n + 1 < n" by simp
    have "x + 1 = n * (x div n) + (x mod n + 1)" using x by simp
    from int_div_pos_eq[OF this _ lt] int_mod_pos_eq[OF this _ lt] r show ?thesis by simp
  qed
qed

lemma mod_shift: "(y + n * k) mod n = y mod (n::int)"
  by simp

lemma DaysInYear_eq: "DayFromYear (y + 1) = DayFromYear y + DaysInYear y"
proof -
  have a: "(y + 1 - 1969) div 4 = (y - 1969) div 4 + (if y mod 4 = 0 then 1 else 0)"
  proof -
    have "(y - 1969 + 1) mod 4 = y mod 4"
      using mod_shift[of y 4 "- 492"] by simp
    with div_succ[of 4 "y - 1969"] show ?thesis by (simp add: algebra_simps)
  qed
  have b: "(y + 1 - 1901) div 100 = (y - 1901) div 100 + (if y mod 100 = 0 then 1 else 0)"
  proof -
    have "(y - 1901 + 1) mod 100 = y mod 100"
      using mod_shift[of y 100 "- 19"] by simp
    with div_succ[of 100 "y - 1901"] show ?thesis by (simp add: algebra_simps)
  qed
  have c: "(y + 1 - 1601) div 400 = (y - 1601) div 400 + (if y mod 400 = 0 then 1 else 0)"
  proof -
    have "(y - 1601 + 1) mod 400 = y mod 400"
      using mod_shift[of y 400 "- 4"] by simp
    with div_succ[of 400 "y - 1601"] show ?thesis by (simp add: algebra_simps)
  qed
  have d1: "y mod 100 = 0" if "y mod 400 = 0"
    using mod_mod_cancel[of 100 400 y] that by simp
  have d2: "y mod 4 = 0" if "y mod 100 = 0"
    using mod_mod_cancel[of 4 100 y] that by simp
  show ?thesis
    unfolding DayFromYear_def DaysInYear_def a b c using d1 d2 by auto
qed

text \<open>
  A day given by year, month and date has these as its fields, when the month and the
  date are in range.
\<close>

lemma month_cases:
  assumes "(0::int) \<le> m" and "m \<le> 11"
  obtains "m = 0" | "m = 1" | "m = 2" | "m = 3" | "m = 4" | "m = 5" | "m = 6" | "m = 7"
    | "m = 8" | "m = 9" | "m = 10" | "m = 11"
proof -
  have "m = 0 \<or> m = 1 \<or> m = 2 \<or> m = 3 \<or> m = 4 \<or> m = 5 \<or> m = 6 \<or> m = 7
    \<or> m = 8 \<or> m = 9 \<or> m = 10 \<or> m = 11"
    using assms by presburger
  with that show thesis by blast
qed

lemma DaysInYear_cases: "DaysInYear y = 365 \<or> DaysInYear y = 366"
  by (simp add: DaysInYear_def)

lemma fields_of_day:
  assumes m: "0 \<le> m" "m \<le> 11" and date: "1 \<le> date" "date \<le> DaysInMonth y m"
    and day: "Day t = DayFromYear y + days_before_month y m + date - 1"
  shows "YearFromTime t = y \<and> MonthFromTime t = m \<and> DateFromTime t = date"
proof -
  define dd where "dd = days_before_month y m + date - 1"
  have range: "0 \<le> dd \<and> dd < DaysInYear y"
    using m
  proof (cases rule: month_cases)
  qed (use date DaysInYear_cases[of y] in
      \<open>auto simp: dd_def days_before_month_def DaysInMonth_def Let_def\<close>)
  have d: "Day t = DayFromYear y + dd" using day by (simp add: dd_def)
  have yr: "YearFromTime t = y"
    unfolding YearFromTime_def
    by (rule YearFromDay_unique) (use range d DaysInYear_eq[of y] in auto)
  have dw: "DayWithinYear t = dd"
    by (simp add: DayWithinYear_def yr d)
  have mo: "MonthFromTime t = m"
    using m
  proof (cases rule: month_cases)
  qed (use date DaysInYear_cases[of y] in
      \<open>auto simp: MonthFromTime_def yr dw dd_def days_before_month_def DaysInMonth_def Let_def\<close>)
  have "DateFromTime t = date"
    by (simp add: DateFromTime_def yr dw mo dd_def)
  with yr mo show ?thesis by simp
qed





section \<open>Properties of the freshness policy\<close>



text \<open>
  At noon UTC of 15 August 2024, in a zone without offset, the cutoff of three months
  is noon of 15 May 2024: 92 days back, not 90.
\<close>

lemma example_year: "YearFromTime 1723723200000 = 2024"
  by (simp add: YearFromTime_def YearFromDay_def Day_def msPerDay_def
      year_search.simps[of _ 2023] year_search.simps[of _ 2024] DayFromYear_def)

lemma example_month: "MonthFromTime 1723723200000 = 7"
  by (simp add: MonthFromTime_def DayWithinYear_def example_year DayFromYear_def Day_def
      msPerDay_def days_before_month_def DaysInYear_def)

lemma example_date: "DateFromTime 1723723200000 = 15"
  by (simp add: DateFromTime_def example_month DayWithinYear_def example_year DayFromYear_def
      Day_def msPerDay_def days_before_month_def DaysInYear_def)

lemma example_time: "TimeWithinDay 1723723200000 = 43200000"
  by (simp add: TimeWithinDay_def msPerDay_def)

lemma example_day: "MakeDay 2024 4 15 = 19858"
  by (simp add: MakeDay_def DayFromYear_def days_before_month_def DaysInYear_def)

lemma cutoff_example:
  "now c = 1723723200000 \<Longrightarrow> tza c = (\<lambda>t b. 0) \<Longrightarrow> cutoff c 3 = Some 1715774400000"
  by (simp add: cutoff_def setMonth_def getMonth_def LocalTime_def UTC_def TimeClip_def
      MakeDate_def example_year example_month example_date example_time example_day
      msPerDay_def)

text \<open>
  At midnight UTC of 31 May 2024 the month three months back, February, has no day 31:
  the cutoff runs over to 2 March 2024.
\<close>

lemma month_end_year: "YearFromTime 1717113600000 = 2024"
  by (simp add: YearFromTime_def YearFromDay_def Day_def msPerDay_def
      year_search.simps[of _ 2023] year_search.simps[of _ 2024] DayFromYear_def)

lemma month_end_month: "MonthFromTime 1717113600000 = 4"
  by (simp add: MonthFromTime_def DayWithinYear_def month_end_year DayFromYear_def Day_def
      msPerDay_def days_before_month_def DaysInYear_def)

lemma month_end_date: "DateFromTime 1717113600000 = 31"
  by (simp add: DateFromTime_def month_end_month DayWithinYear_def month_end_year
      DayFromYear_def Day_def msPerDay_def days_before_month_def DaysInYear_def)

lemma month_end_time: "TimeWithinDay 1717113600000 = 0"
  by (simp add: TimeWithinDay_def msPerDay_def)

lemma month_end_day: "MakeDay 2024 1 31 = 19784"
  by (simp add: MakeDay_def DayFromYear_def days_before_month_def DaysInYear_def)

lemma cutoff_month_end:
  "now c = 1717113600000 \<Longrightarrow> tza c = (\<lambda>t b. 0) \<Longrightarrow> cutoff c 3 = Some 1709337600000"
  by (simp add: cutoff_def setMonth_def getMonth_def LocalTime_def UTC_def TimeClip_def
      MakeDate_def month_end_year month_end_month month_end_date month_end_time month_end_day
      msPerDay_def)

lemma month_end_fields:
  "YearFromTime 1709337600000 = 2024 \<and> MonthFromTime 1709337600000 = 2 \<and>
   DateFromTime 1709337600000 = 2"
proof (rule fields_of_day)
  show "Day 1709337600000 = DayFromYear 2024 + days_before_month 2024 2 + 2 - 1"
    by (simp add: Day_def msPerDay_def DayFromYear_def days_before_month_def DaysInYear_def)
qed (simp_all add: DaysInMonth_def)


section \<open>Properties of the orchestrator\<close>

text \<open>
  Claim C1.  In every call of \<open>loadScores\<close> in which the store is read and the fetcher
  or the aggregator throws, the caller receives a result and no error: the summary of
  the cached entry with the entry's records (none when the entry holds no records) when
  the store holds an entry with a summary, whatever its age, and otherwise a result with
  no summary and no records.
\<close>

theorem loadScores_failure_falls_back:
  "\<not> getItem_rejects rt \<Longrightarrow> fetchAllScores 200 (network rt) = Some run \<Longrightarrow>
   (\<exists>e. outcome run = Inl e) \<or>
   (\<exists>fetched e. outcome run = Inr fetched \<and> computeSummary (conversions rt) fetched = Inl e) \<Longrightarrow>
   loadScores rt store =
     Some (Inr (case store of
                  None \<Rightarrow> \<lparr>scores = [], summary = None\<rparr>
                | Some entry \<Rightarrow>
                    (case stored_summary entry of
                       None \<Rightarrow> \<lparr>scores = [], summary = None\<rparr>
                     | Some s \<Rightarrow>
                         \<lparr>scores = (case stored_scores entry of None \<Rightarrow> [] | Some xs \<Rightarrow> xs),
                          summary = Some s\<rparr>)),
           store)"
  by (auto simp: loadScores_def getStoredScoreSummary_def recover_def fresh_hit_def
      split: option.splits)

theorem loadScores_failure_falls_back_witness:
  "loadScores
     \<lparr>now = 0, tza = (\<lambda>t b. 0), parse_date = (\<lambda>s. None), network = (\<lambda>n. NotOk 500),
      conversions = \<lparr>convert = (\<lambda>v. Inr NaN), nearest = Num\<rparr>, timestamp = ''t'', getItem_rejects = False,
      setItem_rejects = False\<rparr>
     (Some \<lparr>savedAt = Some ''old'',
            stored_summary = Some \<lparr>totalScores = 1, uniqueTraits = 1,
              variants = \<lparr>min_variants = Null, max_variants = Null, mean = Null, median = Null\<rparr>,
              topTraits = [(JStr ''NR'', 1)], releaseYears = []\<rparr>,
            stored_scores = Some [JObj []]\<rparr>) =
   Some (Inr \<lparr>scores = [JObj []],
              summary = Some \<lparr>totalScores = 1, uniqueTraits = 1,
                variants = \<lparr>min_variants = Null, max_variants = Null, mean = Null, median = Null\<rparr>,
                topTraits = [(JStr ''NR'', 1)], releaseYears = []\<rparr>\<rparr>,
         Some \<lparr>savedAt = Some ''old'',
            stored_summary = Some \<lparr>totalScores = 1, uniqueTraits = 1,
              variants = \<lparr>min_variants = Null, max_variants = Null, mean = Null, median = Null\<rparr>,
              topTraits = [(JStr ''NR'', 1)], releaseYears = []\<rparr>,
            stored_scores = Some [JObj []]\<rparr>)"
proof -
  have f: "fetchAllScores 200 (\<lambda>n. NotOk 500) =
      Some \<lparr>requested = [0], outcome = Inl (HttpError 500 0)\<rparr>"
    by (simp add: fetchAllScores_def fetch_loop.simps[of _ _ 0])
  show ?thesis
    using loadScores_failure_falls_back[of
      "\<lparr>now = 0, tza = (\<lambda>t b. 0), parse_date = (\<lambda>s. None), network = (\<lambda>n. NotOk 500),
        conversions = \<lparr>convert = (\<lambda>v. Inr NaN), nearest = Num\<rparr>, timestamp = ''t'', getItem_rejects = False,
        setItem_rejects = False\<rparr>"
      "\<lparr>requested = [0], outcome = Inl (HttpError 500 0)\<rparr>"] f
    by simp
qed

text \<open>
  Claim C9.  In every call of \<open>loadScores\<close> in which the fetcher throws on some page, the
  content of the key after the call is its content before the call.  The key changes
  only in a call in which both the fetcher and the aggregator have returned, and what is
  then stored is the whole result of the fetcher with its summary.
\<close>

theorem loadScores_keeps_store_on_failure:
  "(fetchAllScores 200 (network rt) = Some run \<and> outcome run = Inl e \<longrightarrow>
      (\<exists>r. loadScores rt store = Some (r, store))) \<and>
   (loadScores rt store = Some (r', store') \<and> store' \<noteq> store \<longrightarrow>
      (\<exists>run fetched s.
         fetchAllScores 200 (network rt) = Some run \<and> outcome run = Inr fetched \<and>
         computeSummary (conversions rt) fetched = Inr s \<and>
         r' = Inr \<lparr>scores = fetched, summary = Some s\<rparr> \<and>
         store' = Some \<lparr>savedAt = Some (timestamp rt), stored_summary = Some s,
                        stored_scores = Some fetched\<rparr>))"
  by (auto simp: loadScores_def getStoredScoreSummary_def saveScoreSummary_def
      split: sum.splits option.splits if_splits)

theorem loadScores_keeps_store_on_failure_witness:
  "fetchAllScores 200
     (\<lambda>n. if n = 0 then OkBody (JObj [(''results'', JArr [JObj []]), (''next'', JStr ''p2'')])
          else NotOk 500) =
     Some \<lparr>requested = [0, 1], outcome = Inl (HttpError 500 1)\<rparr> \<and>
   loadScores
     \<lparr>now = 0, tza = (\<lambda>t b. 0), parse_date = (\<lambda>s. None),
      network =
        (\<lambda>n. if n = 0 then OkBody (JObj [(''results'', JArr [JObj []]), (''next'', JStr ''p2'')])
             else NotOk 500),
      conversions = \<lparr>convert = (\<lambda>v. Inr NaN), nearest = Num\<rparr>, timestamp = ''t'', getItem_rejects = False,
      setItem_rejects = False\<rparr>
     (Some \<lparr>savedAt = Some ''old'', stored_summary = None, stored_scores = None\<rparr>) =
   Some (Inr \<lparr>scores = [], summary = None\<rparr>,
         Some \<lparr>savedAt = Some ''old'', stored_summary = None, stored_scores = None\<rparr>)"
proof -
  have f: "fetchAllScores 200
     (\<lambda>n. if n = 0 then OkBody (JObj [(''results'', JArr [JObj []]), (''next'', JStr ''p2'')])
          else NotOk 500) =
     Some \<lparr>requested = [0, 1], outcome = Inl (HttpError 500 1)\<rparr>"
    by (simp add: fetchAllScores_def fetch_loop.simps[of _ _ 0] fetch_loop.simps[of _ _ "Suc 0"]
        page_results_def next_is_null_def)
  have l: "loadScores
     \<lparr>now = 0, tza = (\<lambda>t b. 0), parse_date = (\<lambda>s. None),
      network =
        (\<lambda>n. if n = 0 then OkBody (JObj [(''results'', JArr [JObj []]), (''next'', JStr ''p2'')])
             else NotOk 500),
      conversions = \<lparr>convert = (\<lambda>v. Inr NaN), nearest = Num\<rparr>, timestamp = ''t'', getItem_rejects = False,
      setItem_rejects = False\<rparr>
     (Some \<lparr>savedAt = Some ''old'', stored_summary = None, stored_scores = None\<rparr>) =
   Some (Inr \<lparr>scores = [], summary = None\<rparr>,
         Some \<lparr>savedAt = Some ''old'', stored_summary = None, stored_scores = None\<rparr>)"
    by (simp add: loadScores_def getStoredScoreSummary_def fresh_hit_def recover_def f)
  show ?thesis
    using loadScores_keeps_store_on_failure[of
      "\<lparr>now = 0, tza = (\<lambda>t b. 0), parse_date = (\<lambda>s. None),
        network =
          (\<lambda>n. if n = 0 then OkBody (JObj [(''results'', JArr [JObj []]), (''next'', JStr ''p2'')])
               else NotOk 500),
        conversions = \<lparr>convert = (\<lambda>v. Inr NaN), nearest = Num\<rparr>, timestamp = ''t'', getItem_rejects = False,
        setItem_rejects = False\<rparr>"
      "\<lparr>requested = [0, 1], outcome = Inl (HttpError 500 1)\<rparr>" "HttpError 500 1"
      "Some \<lparr>savedAt = Some ''old'', stored_summary = None, stored_scores = None\<rparr>"] f l
    by simp
qed

text \<open>
  Claim C10.  A call of \<open>loadScores\<close> that returns a value returns a list of records,
  possibly empty, with a summary or none (the store holds what this repository writes to
  it: entries whose records are a list or are missing).  The value is what the cache
  gives, with an empty list for missing records, or the fetched records with their
  summary; it has no summary only when it has no records.  A fresh entry with a summary
  and without records is returned as that summary with the empty list.
\<close>

theorem loadScores_result_shape:
  "(loadScores rt store = Some (x, store') \<longrightarrow>
      (x = Inl StoreError \<and> getItem_rejects rt) \<or>
      (\<exists>r. x = Inr r \<and> (summary r = None \<longrightarrow> scores r = []) \<and>
         (r = recover store \<lparr>scores = [], summary = None\<rparr> \<or>
          (\<exists>fetched s. r = \<lparr>scores = fetched, summary = Some s\<rparr>) \<or>
          (\<exists>fetched s. r = recover store \<lparr>scores = fetched, summary = Some s\<rparr>)))) \<and>
   (\<not> getItem_rejects rt \<and> store = Some entry \<and> stored_summary entry = Some s \<and>
    stored_scores entry = None \<and> isCacheWithinMonths rt (savedAt entry) 3 \<longrightarrow>
      loadScores rt store = Some (Inr \<lparr>scores = [], summary = Some s\<rparr>, store))"
proof -
  have shape: "summary (recover store r) = None \<longrightarrow> scores (recover store r) = []"
    if "summary r = None \<longrightarrow> scores r = []" for r
    using that by (auto simp: recover_def split: option.splits)
  have 1: "loadScores rt store = Some (x, store') \<longrightarrow>
      (x = Inl StoreError \<and> getItem_rejects rt) \<or>
      (\<exists>r. x = Inr r \<and> (summary r = None \<longrightarrow> scores r = []) \<and>
         (r = recover store \<lparr>scores = [], summary = None\<rparr> \<or>
          (\<exists>fetched s. r = \<lparr>scores = fetched, summary = Some s\<rparr>) \<or>
          (\<exists>fetched s. r = recover store \<lparr>scores = fetched, summary = Some s\<rparr>)))"
    using shape[of "\<lparr>scores = [], summary = None\<rparr>"]
    by (auto simp: loadScores_def getStoredScoreSummary_def saveScoreSummary_def
        split: sum.splits option.splits if_splits)
      (auto simp: recover_def split: option.splits)
  have 2: "\<not> getItem_rejects rt \<and> store = Some entry \<and> stored_summary entry = Some s \<and>
    stored_scores entry = None \<and> isCacheWithinMonths rt (savedAt entry) 3 \<longrightarrow>
      loadScores rt store = Some (Inr \<lparr>scores = [], summary = Some s\<rparr>, store)"
    by (simp add: loadScores_def getStoredScoreSummary_def fresh_hit_def recover_def)
  from 1 2 show ?thesis by blast
qed

theorem loadScores_result_shape_witness:
  "loadScores
     \<lparr>now = 1723723200000, tza = (\<lambda>t b. 0), parse_date = (\<lambda>s. Some 1719792000000),
      network = (\<lambda>n. Failed), conversions = \<lparr>convert = (\<lambda>v. Inr NaN), nearest = Num\<rparr>, timestamp = ''t'',
      getItem_rejects = False, setItem_rejects = False\<rparr>
     (Some \<lparr>savedAt = Some ''2024-07-01T00:00:00.000Z'',
            stored_summary = Some \<lparr>totalScores = 1, uniqueTraits = 1,
              variants = \<lparr>min_variants = Null, max_variants = Null, mean = Null, median = Null\<rparr>,
              topTraits = [(JStr ''NR'', 1)], releaseYears = []\<rparr>,
            stored_scores = None\<rparr>) =
   Some (Inr \<lparr>scores = [],
              summary = Some \<lparr>totalScores = 1, uniqueTraits = 1,
                variants = \<lparr>min_variants = Null, max_variants = Null, mean = Null, median = Null\<rparr>,
                topTraits = [(JStr ''NR'', 1)], releaseYears = []\<rparr>\<rparr>,
         Some \<lparr>savedAt = Some ''2024-07-01T00:00:00.000Z'',
            stored_summary = Some \<lparr>totalScores = 1, uniqueTraits = 1,
              variants = \<lparr>min_variants = Null, max_variants = Null, mean = Null, median = Null\<rparr>,
              topTraits = [(JStr ''NR'', 1)], releaseYears = []\<rparr>,
            stored_scores = None\<rparr>)"
proof -
  let ?rt = "\<lparr>now = 1723723200000, tza = (\<lambda>t b. 0), parse_date = (\<lambda>s. Some 1719792000000),
      network = (\<lambda>n. Failed), conversions = \<lparr>convert = (\<lambda>v. Inr NaN), nearest = Num\<rparr>, timestamp = ''t'',
      getItem_rejects = False, setItem_rejects = False\<rparr>"
  let ?s = "\<lparr>totalScores = 1, uniqueTraits = 1,
      variants = \<lparr>min_variants = Null, max_variants = Null, mean = Null, median = Null\<rparr>,
      topTraits = [(JStr ''NR'', 1)], releaseYears = []\<rparr>"
  let ?entry = "\<lparr>savedAt = Some ''2024-07-01T00:00:00.000Z'', stored_summary = Some ?s,
      stored_scores = None\<rparr>"
  have cu: "cutoff ?rt 3 = Some 1715774400000" by (rule cutoff_example) simp_all
  have fresh: "isCacheWithinMonths ?rt (savedAt ?entry) 3"
    by (simp add: isCacheWithinMonths_def cu)
  have pre: "\<not> getItem_rejects ?rt \<and> Some ?entry = Some ?entry \<and>
      stored_summary ?entry = Some ?s \<and> stored_scores ?entry = None \<and>
      isCacheWithinMonths ?rt (savedAt ?entry) 3"
    using fresh by simp
  show ?thesis
    by (rule loadScores_result_shape[THEN conjunct2, THEN mp, OF pre])
qed

end
